theory Spec2Isabelle
  imports Complex_Main
begin

section \<open>Strings and numbers of the recipe parser\<close>

text \<open>
  A JavaScript string is a sequence of UTF-16 code units; it is modelled as a list of
  natural numbers, so that the bullet U+2022 and the degree sign U+00B0 of the source's
  patterns are single elements. \<open>js\<close> turns an ASCII literal into such a list.

  A JavaScript number is modelled as a rational number; overflow, the infinities and the
  sign of zero are outside the model. \<open>NaN\<close> appears only as the result of
  \<open>parseFloat\<close> and \<open>parseInt\<close>, where it is \<open>None\<close>. The arithmetic is exact, except
  in \<open>closestFraction\<close> and in the threshold of \<open>formatQuantity\<close>: there every operation
  is followed by the rounding to the nearest double (\<open>roundDouble\<close> below), because the
  comparison of the error with \<open>0.01\<close> depends on it. The functions are defined on every
  rational; the quantities that the code passes to \<open>formatQuantity\<close> are doubles, the
  fixed points of \<open>roundDouble\<close>, and a decimal literal such as \<open>0.999\<close> is
  \<open>roundDouble (999 / 1000)\<close>.
\<close>

type_synonym jsstring = "nat list"

definition js :: "string \<Rightarrow> jsstring" where
  "js cs = map of_char cs"

text \<open>The class \<open>\s\<close> of a regular expression, which is also what \<open>trim\<close> strips:
  white space and line terminators.\<close>

definition isSpace :: "nat \<Rightarrow> bool" where
  "isSpace c \<longleftrightarrow>
     c = 9 \<or> c = 10 \<or> c = 11 \<or> c = 12 \<or> c = 13 \<or> c = 32 \<or> c = 160 \<or> c = 5760 \<or>
     (8192 \<le> c \<and> c \<le> 8202) \<or> c = 8232 \<or> c = 8233 \<or> c = 8239 \<or> c = 8287 \<or>
     c = 12288 \<or> c = 65279"

text \<open>The characters that \<open>.\<close> does not match.\<close>

definition isLineTerminator :: "nat \<Rightarrow> bool" where
  "isLineTerminator c \<longleftrightarrow> c = 10 \<or> c = 13 \<or> c = 8232 \<or> c = 8233"

definition isDigit :: "nat \<Rightarrow> bool" where
  "isDigit c \<longleftrightarrow> 48 \<le> c \<and> c \<le> 57"

definition trimStart :: "jsstring \<Rightarrow> jsstring" where
  "trimStart s = dropWhile isSpace s"

definition trim :: "jsstring \<Rightarrow> jsstring" where
  "trim s = rev (dropWhile isSpace (rev (dropWhile isSpace s)))"

text \<open>\<open>toLowerCase\<close> on the letters A to Z; the case mapping of letters outside ASCII is
  not modelled, they are kept as they are.\<close>

definition lowerChar :: "nat \<Rightarrow> nat" where
  "lowerChar c = (if 65 \<le> c \<and> c \<le> 90 then c + 32 else c)"

definition toLowerCase :: "jsstring \<Rightarrow> jsstring" where
  "toLowerCase s = map lowerChar s"

definition upperChar :: "nat \<Rightarrow> nat" where
  "upperChar c = (if 97 \<le> c \<and> c \<le> 122 then c - 32 else c)"

definition toUpperCase :: "jsstring \<Rightarrow> jsstring" where
  "toUpperCase s = map upperChar s"

definition startsWith :: "jsstring \<Rightarrow> jsstring \<Rightarrow> bool" where
  "startsWith s p \<longleftrightarrow> take (length p) s = p"

text \<open>\<open>s.split(c)\<close> for a separator of one character.\<close>

fun splitOn :: "nat \<Rightarrow> jsstring \<Rightarrow> jsstring list" where
  "splitOn c [] = [[]]"
| "splitOn c (x # xs) =
     (if x = c then [] # splitOn c xs
      else (case splitOn c xs of
              [] \<Rightarrow> [[x]]
            | p # ps \<Rightarrow> (x # p) # ps))"

section \<open>The unit registry\<close>

datatype UnitType = volume | weight | count

record UnitConversion =
  type :: UnitType
  baseUnit :: jsstring
  conversions :: "(jsstring \<times> rat) list"

text \<open>
  The two tables are object literals; they are association lists in the order of the
  source, which is the order in which \<open>Object.values\<close> and \<open>Object.entries\<close> visit
  them. A lookup \<open>obj[k]\<close> is \<open>map_of obj k\<close>, with \<open>None\<close> for \<open>undefined\<close>: the
  lookup of an own property. The names that an object literal inherits from its prototype
  (\<open>constructor\<close>, \<open>__proto__\<close>) are outside the model.
\<close>

definition UNIT_CONVERSIONS :: "(jsstring \<times> UnitConversion) list" where
  "UNIT_CONVERSIONS =
    [(js ''ml'',
      \<lparr>type = volume, baseUnit = js ''ml'',
       conversions =
         [(js ''ml'', 1), (js ''l'', 1000), (js ''tsp'', 492892 / 100000),
          (js ''tbsp'', 147868 / 10000), (js ''cup'', 236588 / 1000),
          (js ''fl oz'', 295735 / 10000)]\<rparr>),
     (js ''g'',
      \<lparr>type = weight, baseUnit = js ''g'',
       conversions =
         [(js ''g'', 1), (js ''kg'', 1000), (js ''oz'', 283495 / 10000),
          (js ''lb'', 453592 / 1000)]\<rparr>),
     (js ''count'',
      \<lparr>type = count, baseUnit = js ''count'',
       conversions =
         [(js ''piece'', 1), (js ''pieces'', 1), (js ''clove'', 1), (js ''cloves'', 1),
          (js ''egg'', 1), (js ''eggs'', 1)]\<rparr>)]"

definition UNIT_ALIASES :: "(jsstring \<times> jsstring) list" where
  "UNIT_ALIASES =
    [(js ''teaspoon'', js ''tsp''), (js ''teaspoons'', js ''tsp''),
     (js ''tablespoon'', js ''tbsp''), (js ''tablespoons'', js ''tbsp''),
     (js ''tbsps'', js ''tbsp''),
     (js ''cup'', js ''cup''), (js ''cups'', js ''cup''),
     (js ''ounce'', js ''oz''), (js ''ounces'', js ''oz''),
     (js ''pound'', js ''lb''), (js ''pounds'', js ''lb''),
     (js ''milliliter'', js ''ml''), (js ''milliliters'', js ''ml''),
     (js ''liter'', js ''l''), (js ''liters'', js ''l''),
     (js ''gram'', js ''g''), (js ''grams'', js ''g''),
     (js ''kilogram'', js ''kg''), (js ''kilograms'', js ''kg''),
     (js ''fl oz'', js ''fl oz''), (js ''fluid ounce'', js ''fl oz''),
     (js ''fluid ounces'', js ''fl oz'')]"

text \<open>Truthiness of a looked-up string and of a looked-up number.\<close>

definition truthyStr :: "jsstring option \<Rightarrow> bool" where
  "truthyStr v = (case v of None \<Rightarrow> False | Some s \<Rightarrow> s \<noteq> [])"

definition truthyNum :: "rat option \<Rightarrow> bool" where
  "truthyNum v = (case v of None \<Rightarrow> False | Some m \<Rightarrow> m \<noteq> 0)"

definition normalizeUnit :: "jsstring \<Rightarrow> jsstring option" where
  "normalizeUnit unitStr =
     (let lower = trim (toLowerCase unitStr) in
      if truthyStr (map_of UNIT_ALIASES lower) then map_of UNIT_ALIASES lower
      else if list_ex (\<lambda>conversion. truthyNum (map_of (conversions conversion) lower))
                (map snd UNIT_CONVERSIONS)
      then Some lower
      else None)"

fun firstType :: "UnitConversion list \<Rightarrow> jsstring \<Rightarrow> UnitType" where
  "firstType [] u = count"
| "firstType (conversion # cs) u =
     (if truthyNum (map_of (conversions conversion) u) then type conversion
      else firstType cs u)"

definition getUnitType :: "jsstring \<Rightarrow> UnitType" where
  "getUnitType u = firstType (map snd UNIT_CONVERSIONS) u"

section \<open>Unit conversion\<close>

record ConversionResult =
  cr_quantity :: rat
  cr_unit :: jsstring
  cr_baseQuantity :: rat
  cr_baseUnit :: jsstring

text \<open>The loop of \<open>convertQuantity\<close> over the groups: it has no \<open>break\<close>, so a later
  group that lists the unit replaces an earlier one.\<close>

definition findGroups ::
  "jsstring \<Rightarrow> jsstring \<Rightarrow> UnitConversion list \<Rightarrow> UnitConversion option \<times> UnitConversion option"
where
  "findGroups normalizedFrom normalizedTo cs =
     foldl (\<lambda>(fromGroup, toGroup) conversion.
              (if truthyNum (map_of (conversions conversion) normalizedFrom)
               then Some conversion else fromGroup,
               if truthyNum (map_of (conversions conversion) normalizedTo)
               then Some conversion else toGroup))
       (None, None) cs"

text \<open>\<open>m ?? 1\<close> on a looked-up multiplier.\<close>

definition orOne :: "rat option \<Rightarrow> rat" where
  "orOne v = (case v of None \<Rightarrow> 1 | Some m \<Rightarrow> m)"

text \<open>The division is by a multiplier that was found truthy, hence not by zero.\<close>

definition convertQuantity :: "rat \<Rightarrow> jsstring \<Rightarrow> jsstring \<Rightarrow> ConversionResult option" where
  "convertQuantity quantity fromUnit toUnit =
     (let normalizedFrom = normalizeUnit fromUnit;
          normalizedTo = normalizeUnit toUnit
      in if \<not> truthyStr normalizedFrom \<or> \<not> truthyStr normalizedTo then None
         else
           (case findGroups (the normalizedFrom) (the normalizedTo) (map snd UNIT_CONVERSIONS) of
              (Some fromGroup, Some toGroup) \<Rightarrow>
                if baseUnit fromGroup \<noteq> baseUnit toGroup then None
                else
                  (let toBaseMultiplier = orOne (map_of (conversions fromGroup) (the normalizedFrom));
                       fromBaseMultiplier = orOne (map_of (conversions toGroup) (the normalizedTo));
                       baseQuantity = quantity * toBaseMultiplier;
                       resultQuantity = baseQuantity / fromBaseMultiplier
                   in Some \<lparr>cr_quantity = resultQuantity, cr_unit = the normalizedTo,
                            cr_baseQuantity = baseQuantity, cr_baseUnit = baseUnit fromGroup\<rparr>)
            | _ \<Rightarrow> None))"

section \<open>Formatting a quantity\<close>

text \<open>
  \<open>Number.prototype.toString\<close> on a whole number, and the numbers inside a template
  literal: plain decimal digits, with a minus sign for a negative number. (JavaScript
  switches to exponent notation from \<open>1e21\<close> on; such magnitudes are outside the model.)
\<close>

fun digitsOf :: "nat \<Rightarrow> jsstring" where
  "digitsOf n = (if n < 10 then [48 + n] else digitsOf (n div 10) @ [48 + n mod 10])"

declare digitsOf.simps [simp del]

definition intToString :: "int \<Rightarrow> jsstring" where
  "intToString i = (if i < 0 then 45 # digitsOf (nat (- i)) else digitsOf (nat i))"

text \<open>\<open>Math.round\<close>: the nearest integer, a tie going up.\<close>

definition mathRound :: "rat \<Rightarrow> int" where
  "mathRound x = \<lfloor>x + 1 / 2\<rfloor>"

text \<open>\<open>x.toFixed(2)\<close>: the sign, then the integer \<open>n\<close> nearest to \<open>100 * |x|\<close> (the
  larger one on a tie), printed with at least three digits and a point before the last
  two.\<close>

definition toFixed2 :: "rat \<Rightarrow> jsstring" where
  "toFixed2 x =
     (let n = nat \<lfloor>\<bar>x\<bar> * 100 + 1 / 2\<rfloor>;
          m = digitsOf n;
          padded = replicate (3 - length m) 48 @ m
      in (if x < 0 then [45] else []) @
         take (length padded - 2) padded @ [46] @ drop (length padded - 2) padded)"

text \<open>
  The rounding of a real result to the nearest double, a tie going to the even
  significand: the result is a multiple of \<open>2 ^ q\<close>, where \<open>q\<close> is 52 below the binary
  exponent of the value, and at least \<open>-1074\<close> (the subnormal doubles). \<open>bits n\<close> is the
  length of \<open>n\<close> in binary, and \<open>ilog2 a\<close> the binary exponent of a positive \<open>a\<close>:
  \<open>2 ^ ilog2 a \<le> a < 2 ^ (ilog2 a + 1)\<close>. (Values beyond the largest double are outside
  the model.)
\<close>

fun bits :: "nat \<Rightarrow> nat" where
  "bits n = (if n = 0 then 0 else Suc (bits (n div 2)))"

declare bits.simps [simp del]

definition ilog2 :: "rat \<Rightarrow> int" where
  "ilog2 a =
     (if 1 \<le> a then int (bits (nat \<lfloor>a\<rfloor>)) - 1
      else - int (bits (nat (\<lceil>1 / a\<rceil> - 1))))"

definition pow2 :: "int \<Rightarrow> rat" where
  "pow2 e = (if 0 \<le> e then 2 ^ nat e else 1 / 2 ^ nat (- e))"

definition roundHalfEven :: "rat \<Rightarrow> int" where
  "roundHalfEven m =
     (let n = \<lfloor>m\<rfloor>;
          f = m - of_int n
      in if f < 1 / 2 then n else if 1 / 2 < f then n + 1 else if even n then n else n + 1)"

definition roundDouble :: "rat \<Rightarrow> rat" where
  "roundDouble x =
     (if x = 0 then 0
      else (let a = \<bar>x\<bar>;
                q = max (ilog2 a - 52) (- 1074);
                n = roundHalfEven (a / pow2 q)
            in sgn x * of_int n * pow2 q))"

record Fraction =
  whole :: int
  numerator :: int
  denominator :: int
  error :: rat

text \<open>One round of the loop of \<open>closestFraction\<close>, on the triple
  \<open>(bestNumerator, bestDenominator, bestError)\<close>. The product, the quotient and the
  difference are double operations; \<open>Math.round\<close> and \<open>Math.abs\<close> are exact.\<close>

definition fractionStep :: "rat \<Rightarrow> int \<times> int \<times> rat \<Rightarrow> int \<Rightarrow> int \<times> int \<times> rat" where
  "fractionStep remainder best d =
     (let n = mathRound (roundDouble (remainder * of_int d));
          v = roundDouble (of_int n / of_int d);
          err = \<bar>roundDouble (v - remainder)\<bar>
      in if err < snd (snd best) then (n, d, err) else best)"

definition maxDenominator :: int where
  "maxDenominator = 16"

text \<open>The remainder \<open>decimal - whole\<close> is a double operation. (\<open>whole + 1\<close> is exact for
  every \<open>decimal\<close> that is not whole, the only ones \<open>formatQuantity\<close> passes.)\<close>

definition closestFraction :: "rat \<Rightarrow> Fraction option" where
  "closestFraction decimal =
     (let w = \<lfloor>decimal\<rfloor>;
          remainder = roundDouble (decimal - of_int w);
          best = foldl (fractionStep remainder) (0, 1, 1) [1..maxDenominator];
          bestNumerator = fst best;
          bestDenominator = fst (snd best);
          bestError = snd (snd best)
      in if bestNumerator = bestDenominator
         then Some \<lparr>whole = w + 1, numerator = 1, denominator = 1, error = 0\<rparr>
         else Some \<lparr>whole = w, numerator = bestNumerator, denominator = bestDenominator,
                     error = bestError\<rparr>)"

text \<open>\<open>quantity % 1 === 0\<close> holds for the whole numbers. The literal \<open>0.01\<close> is the double
  nearest to \<open>1/100\<close>.\<close>

definition isWhole :: "rat \<Rightarrow> bool" where
  "isWhole q \<longleftrightarrow> of_int \<lfloor>q\<rfloor> = q"

definition formatQuantity :: "rat \<Rightarrow> jsstring" where
  "formatQuantity quantity =
     (if isWhole quantity then intToString \<lfloor>quantity\<rfloor>
      else
        (case closestFraction quantity of
           None \<Rightarrow> toFixed2 quantity
         | Some fractionMatch \<Rightarrow>
             if error fractionMatch < roundDouble (1 / 100) then
               (if whole fractionMatch > 0
                then intToString (whole fractionMatch) @ js '' '' @
                     intToString (numerator fractionMatch) @ js ''/'' @
                     intToString (denominator fractionMatch)
                else intToString (numerator fractionMatch) @ js ''/'' @
                     intToString (denominator fractionMatch))
             else toFixed2 quantity))"

section \<open>Scaling a recipe\<close>

text \<open>The field \<open>notes\<close> of the source is \<open>ingredientNotes\<close> here.\<close>

record ParsedIngredient =
  original :: jsstring
  quantity :: rat
  unit :: jsstring
  unitType :: UnitType
  ingredient :: jsstring
  ingredientNotes :: "jsstring option"



section \<open>Parsing a quantity\<close>

text \<open>
  \<open>parseFloat\<close> skips leading white space and reads the longest prefix that is a decimal
  literal: a sign, then digits with an optional point and more digits, or a point and
  digits, then an optional exponent. Whatever follows is ignored. No such prefix gives
  \<open>NaN\<close>, here \<open>None\<close>. (The literal \<open>Infinity\<close> is not a rational and is left out.)
  \<open>scanFloat\<close> returns the value with the text that was not read.
\<close>

definition digitsValue :: "jsstring \<Rightarrow> nat" where
  "digitsValue ds = foldl (\<lambda>a c. 10 * a + (c - 48)) 0 ds"

definition pow10 :: "int \<Rightarrow> rat" where
  "pow10 e = (if 0 \<le> e then 10 ^ nat e else 1 / 10 ^ nat (- e))"

definition scanExponent :: "jsstring \<Rightarrow> int \<times> jsstring" where
  "scanExponent s =
     (case s of
        [] \<Rightarrow> (0, s)
      | e # r \<Rightarrow>
          if e = 101 \<or> e = 69 then
            (let sgn = (case r of [] \<Rightarrow> 1 | c # _ \<Rightarrow> if c = 45 then - 1 else 1);
                 r' = (case r of [] \<Rightarrow> r | c # r2 \<Rightarrow> if c = 43 \<or> c = 45 then r2 else r);
                 ds = takeWhile isDigit r'
             in if ds = [] then (0, s)
                else (sgn * int (digitsValue ds), dropWhile isDigit r'))
          else (0, s))"

definition scanUnsigned :: "jsstring \<Rightarrow> (rat \<times> jsstring) option" where
  "scanUnsigned s =
     (let ip = takeWhile isDigit s;
          r1 = dropWhile isDigit s
      in if r1 \<noteq> [] \<and> hd r1 = 46 then
           (let fp = takeWhile isDigit (tl r1);
                r3 = dropWhile isDigit (tl r1)
            in if ip = [] \<and> fp = [] then None
               else Some (of_nat (digitsValue (ip @ fp)) / 10 ^ length fp
                            * pow10 (fst (scanExponent r3)),
                          snd (scanExponent r3)))
         else if ip = [] then None
         else Some (of_nat (digitsValue ip) * pow10 (fst (scanExponent r1)),
                    snd (scanExponent r1)))"

definition scanFloat :: "jsstring \<Rightarrow> (rat \<times> jsstring) option" where
  "scanFloat s =
     (case s of
        [] \<Rightarrow> None
      | c # r \<Rightarrow>
          if c = 45 then map_option (\<lambda>(v, rest). (- v, rest)) (scanUnsigned r)
          else if c = 43 then scanUnsigned r
          else scanUnsigned s)"

definition parseFloat :: "jsstring \<Rightarrow> rat option" where
  "parseFloat s = map_option fst (scanFloat (trimStart s))"

text \<open>\<open>parseInt\<close> in base 10: leading white space, a sign, then the leading digits; none
  gives \<open>NaN\<close>, here \<open>None\<close>. (JavaScript reads a string that begins \<open>0x\<close> in base 16;
  the strings passed here are captured by \<open>\d+\<close> first, and the prefix is not modelled.)\<close>

definition parseInt :: "jsstring \<Rightarrow> int option" where
  "parseInt s =
     (let t = trimStart s;
          sgn = (case t of [] \<Rightarrow> 1 | c # _ \<Rightarrow> if c = 45 then - 1 else 1);
          u = (case t of [] \<Rightarrow> t | c # r \<Rightarrow> if c = 43 \<or> c = 45 then r else t);
          ds = takeWhile isDigit u
      in if ds = [] then None else Some (sgn * int (digitsValue ds)))"

text \<open>\<open>s.split(/\s+/)\<close>: the separators are the maximal runs of white space.\<close>

function splitWs :: "jsstring \<Rightarrow> jsstring list" where
  "splitWs [] = [[]]"
| "splitWs (x # xs) =
     (if isSpace x then [] # splitWs (dropWhile isSpace xs)
      else (case splitWs xs of
              [] \<Rightarrow> [[x]]
            | p # ps \<Rightarrow> (x # p) # ps))"
  by pat_completeness auto
termination
  by (relation "measure length") (auto simp: length_dropWhile_le less_Suc_eq_le)

text \<open>The loop of \<open>parseQuantity\<close> over the parts, with the running total \<open>tot\<close>; \<open>None\<close> is the
  early \<open>return null\<close>.\<close>

fun sumParts :: "jsstring list \<Rightarrow> rat \<Rightarrow> rat option" where
  "sumParts [] tot = Some tot"
| "sumParts (part # parts) tot =
     (if 47 \<in> set part then
        (let fractionParts = splitOn 47 part;
             numer = (case fractionParts of
                            [] \<Rightarrow> None
                          | f0 # _ \<Rightarrow> if f0 \<noteq> [] then parseFloat f0 else None);
             denom = (case fractionParts of
                              f0 # f1 # _ \<Rightarrow> if f1 \<noteq> [] then parseFloat f1 else None
                            | _ \<Rightarrow> None)
         in case (numer, denom) of
              (Some n, Some d) \<Rightarrow> if d = 0 then None else sumParts parts (tot + n / d)
            | _ \<Rightarrow> None)
      else
        (case parseFloat part of
           None \<Rightarrow> None
         | Some num \<Rightarrow> sumParts parts (tot + num)))"

definition parseQuantity :: "jsstring \<Rightarrow> rat option" where
  "parseQuantity quantityStr =
     (case sumParts (splitWs quantityStr) 0 of
        None \<Rightarrow> None
      | Some tot \<Rightarrow> if tot > 0 then Some tot else None)"

section \<open>Regular expressions\<close>

text \<open>
  The patterns of the source use character classes, repetition of a character class
  (greedy or lazy), sequence, alternative, the greedy option, capture groups and the end
  anchor. The matcher below tries the choices in the order of a backtracking matcher: a
  greedy repetition the longest run first, a lazy one the shortest first, an alternative
  from left to right, an option first taken and then skipped. The continuation \<open>k\<close> is the
  rest of the pattern; the first success found is the match.
\<close>

datatype regex =
    Chr "nat \<Rightarrow> bool"
  | Star "nat \<Rightarrow> bool"
  | Plus "nat \<Rightarrow> bool"
  | LazyPlus "nat \<Rightarrow> bool"
  | Seq regex regex
  | Alt regex regex
  | Opt regex
  | Group nat regex
  | Eps
  | End

type_synonym captures = "(nat \<times> jsstring) list"

fun starG :: "(nat \<Rightarrow> bool) \<Rightarrow> jsstring \<Rightarrow> (jsstring \<Rightarrow> 'r option) \<Rightarrow> 'r option" where
  "starG p [] k = k []"
| "starG p (c # cs) k =
     (if p c then (case starG p cs k of Some r \<Rightarrow> Some r | None \<Rightarrow> k (c # cs))
      else k (c # cs))"

fun starL :: "(nat \<Rightarrow> bool) \<Rightarrow> jsstring \<Rightarrow> (jsstring \<Rightarrow> 'r option) \<Rightarrow> 'r option" where
  "starL p [] k = k []"
| "starL p (c # cs) k =
     (case k (c # cs) of
        Some r \<Rightarrow> Some r
      | None \<Rightarrow> if p c then starL p cs k else None)"

primrec rmatch ::
  "regex \<Rightarrow> jsstring \<Rightarrow> captures \<Rightarrow> (jsstring \<Rightarrow> captures \<Rightarrow> 'r option) \<Rightarrow> 'r option"
where
  "rmatch (Chr p) s cap k =
     (case s of [] \<Rightarrow> None | c # cs \<Rightarrow> if p c then k cs cap else None)"
| "rmatch (Star p) s cap k = starG p s (\<lambda>s'. k s' cap)"
| "rmatch (Plus p) s cap k =
     (case s of [] \<Rightarrow> None | c # cs \<Rightarrow> if p c then starG p cs (\<lambda>s'. k s' cap) else None)"
| "rmatch (LazyPlus p) s cap k =
     (case s of [] \<Rightarrow> None | c # cs \<Rightarrow> if p c then starL p cs (\<lambda>s'. k s' cap) else None)"
| "rmatch (Seq a b) s cap k = rmatch a s cap (\<lambda>s' cap'. rmatch b s' cap' k)"
| "rmatch (Alt a b) s cap k =
     (case rmatch a s cap k of Some r \<Rightarrow> Some r | None \<Rightarrow> rmatch b s cap k)"
| "rmatch (Opt a) s cap k =
     (case rmatch a s cap k of Some r \<Rightarrow> Some r | None \<Rightarrow> k s cap)"
| "rmatch (Group i a) s cap k =
     rmatch a s cap (\<lambda>s' cap'. k s' ((i, take (length s - length s') s) # cap'))"
| "rmatch Eps s cap k = k s cap"
| "rmatch End s cap k = (if s = [] then k s cap else None)"

text \<open>A pattern that begins with \<open>^\<close> matches at index 0 only.\<close>

definition matchStart :: "regex \<Rightarrow> jsstring \<Rightarrow> captures option" where
  "matchStart re s = rmatch re s [] (\<lambda>s' cap. Some cap)"

text \<open>A pattern without \<open>^\<close> is tried at index 0, 1, ... up to the end of the string; the
  result is the index of the first match and its captures.\<close>

fun searchFrom :: "regex \<Rightarrow> jsstring \<Rightarrow> nat \<Rightarrow> (nat \<times> captures) option" where
  "searchFrom re [] i = map_option (Pair i) (matchStart re [])"
| "searchFrom re (c # cs) i =
     (case matchStart re (c # cs) of
        Some cap \<Rightarrow> Some (i, cap)
      | None \<Rightarrow> searchFrom re cs (Suc i))"

definition search :: "regex \<Rightarrow> jsstring \<Rightarrow> (nat \<times> captures) option" where
  "search re s = searchFrom re s 0"

text \<open>A literal word under the flag \<open>i\<close>, and a letter under the flag \<open>i\<close>.\<close>

definition sameLetter :: "nat \<Rightarrow> nat \<Rightarrow> bool" where
  "sameLetter a c \<longleftrightarrow> upperChar c = upperChar a"

definition word :: "jsstring \<Rightarrow> regex" where
  "word w = foldr (\<lambda>a r. Seq (Chr (sameLetter a)) r) w Eps"

definition isLetter :: "nat \<Rightarrow> bool" where
  "isLetter c \<longleftrightarrow> (97 \<le> c \<and> c \<le> 122) \<or> (65 \<le> c \<and> c \<le> 90)"

section \<open>Parsing an ingredient line\<close>

text \<open>\<open>/^[-\<bullet>]\s*/\<close>, the bullet being U+2022.\<close>

definition bulletRe :: regex where
  "bulletRe = Seq (Chr (\<lambda>c. c = 45 \<or> c = 8226)) (Star isSpace)"

text \<open>\<open>/\(([^)]+)\)$/\<close>\<close>

definition notesRe :: regex where
  "notesRe =
     Seq (Chr (\<lambda>c. c = 40)) (Seq (Group 1 (Plus (\<lambda>c. c \<noteq> 41))) (Seq (Chr (\<lambda>c. c = 41)) End))"

text \<open>\<open>/^([\d.]+(?:\s+\d+\/\d+)?|\d+\/\d+)\s+([a-z\s]+?)(?:\s+(.+))?$/i\<close>\<close>

definition quantityRe :: regex where
  "quantityRe =
     Seq (Group 1
            (Alt (Seq (Plus (\<lambda>c. isDigit c \<or> c = 46))
                    (Opt (Seq (Plus isSpace)
                           (Seq (Plus isDigit) (Seq (Chr (\<lambda>c. c = 47)) (Plus isDigit))))))
                 (Seq (Plus isDigit) (Seq (Chr (\<lambda>c. c = 47)) (Plus isDigit)))))
       (Seq (Plus isSpace)
          (Seq (Group 2 (LazyPlus (\<lambda>c. isLetter c \<or> isSpace c)))
             (Seq (Opt (Seq (Plus isSpace) (Group 3 (Plus (\<lambda>c. \<not> isLineTerminator c)))))
                End)))"

definition parseIngredientLine :: "jsstring \<Rightarrow> ParsedIngredient option" where
  "parseIngredientLine line =
     (let trimmed = trim line;
          cleaned = trim (case rmatch bulletRe trimmed [] (\<lambda>s' cap. Some s') of
                            None \<Rightarrow> trimmed
                          | Some rest \<Rightarrow> rest);
          notesMatch = search notesRe cleaned;
          notes = (case notesMatch of None \<Rightarrow> None | Some (i, cap) \<Rightarrow> map_of cap 1);
          textWithoutNotes = (case notesMatch of
                                None \<Rightarrow> cleaned
                              | Some (i, cap) \<Rightarrow> trim (take i cleaned))
      in case matchStart quantityRe textWithoutNotes of
           None \<Rightarrow> None
         | Some quantityMatch \<Rightarrow>
             (let quantityStr = map_of quantityMatch 1;
                  unitStr = (case map_of quantityMatch 2 of None \<Rightarrow> [] | Some u \<Rightarrow> trim u);
                  ingredientStr = (case map_of quantityMatch 3 of
                                     None \<Rightarrow> unitStr
                                   | Some g \<Rightarrow> if trim g \<noteq> [] then trim g else unitStr)
              in case parseQuantity (case quantityStr of None \<Rightarrow> [] | Some q \<Rightarrow> q) of
                   None \<Rightarrow> None
                 | Some qty \<Rightarrow>
                     if \<not> truthyStr (normalizeUnit unitStr) then None
                     else
                       (let normalizedUnit = the (normalizeUnit unitStr)
                        in Some \<lparr>original = trimmed, quantity = qty,
                                 unit = normalizedUnit, unitType = getUnitType normalizedUnit,
                                 ingredient = ingredientStr, ingredientNotes = notes\<rparr>)))"

definition parseIngredients :: "jsstring \<Rightarrow> ParsedIngredient list" where
  "parseIngredients text_block =
     foldl (\<lambda>ingredients line.
              if trim line = [] \<or> startsWith (trim line) (js ''#'') then ingredients
              else (case parseIngredientLine line of
                      None \<Rightarrow> ingredients
                    | Some parsed \<Rightarrow> ingredients @ [parsed]))
       [] (splitOn 10 text_block)"

section \<open>Parsing instructions\<close>

text \<open>A number read by \<open>parseInt\<close> is an \<open>int option\<close>, \<open>None\<close> being \<open>NaN\<close>.\<close>

record Reading =
  val :: "int option"
  unitWord :: jsstring

record ParsedInstruction =
  stepNumber :: "int option"
  instructionText :: jsstring
  temperature :: "Reading option"
  time :: "Reading option"

text \<open>\<open>/^(\d+)\.\s+(.+)$/\<close>\<close>

definition stepRe :: regex where
  "stepRe =
     Seq (Group 1 (Plus isDigit))
       (Seq (Chr (\<lambda>c. c = 46))
          (Seq (Plus isSpace) (Seq (Group 2 (Plus (\<lambda>c. \<not> isLineTerminator c))) End)))"

text \<open>\<open>/(\d+)\<degree>?([FC])/i\<close>, the degree sign being U+00B0.\<close>

definition tempRe :: regex where
  "tempRe =
     Seq (Group 1 (Plus isDigit))
       (Seq (Opt (Chr (\<lambda>c. c = 176)))
          (Group 2 (Chr (\<lambda>c. sameLetter 70 c \<or> sameLetter 67 c))))"

text \<open>\<open>/(\d+(?:\s*-\s*\d+)?)\s*(minute|min|second|sec|hour|hr)s?/i\<close>\<close>

definition timeRe :: regex where
  "timeRe =
     Seq (Group 1
            (Seq (Plus isDigit)
               (Opt (Seq (Star isSpace)
                      (Seq (Chr (\<lambda>c. c = 45)) (Seq (Star isSpace) (Plus isDigit)))))))
       (Seq (Star isSpace)
          (Seq (Group 2
                  (Alt (word (js ''minute''))
                     (Alt (word (js ''min''))
                        (Alt (word (js ''second''))
                           (Alt (word (js ''sec''))
                              (Alt (word (js ''hour'')) (word (js ''hr''))))))))
             (Opt (Chr (sameLetter 115)))))"

definition capOr :: "captures \<Rightarrow> nat \<Rightarrow> jsstring \<Rightarrow> jsstring" where
  "capOr cap i d = (case map_of cap i of None \<Rightarrow> d | Some s \<Rightarrow> s)"

text \<open>The body of the loop of \<open>parseInstructions\<close> for one line: \<open>None\<close> when the line is
  skipped or has no step number. (The variable \<open>stepNumber\<close> of the source lives across the
  rounds of the loop, and is assigned in each round before it is read.)\<close>

definition instructionOfLine :: "jsstring \<Rightarrow> ParsedInstruction option" where
  "instructionOfLine line =
     (let trimmed = trim line
      in if trimmed = [] \<or> startsWith trimmed (js ''#'') then None
         else
           (case matchStart stepRe trimmed of
              None \<Rightarrow> None
            | Some stepMatch \<Rightarrow>
                (let stepStr = capOr stepMatch 1 (js ''0'');
                     body = capOr stepMatch 2 [];
                     temp =
                       (case search tempRe body of
                          None \<Rightarrow> None
                        | Some (i, tempMatch) \<Rightarrow>
                            Some \<lparr>val = parseInt (capOr tempMatch 1 (js ''0'')),
                                  unitWord = toUpperCase (capOr tempMatch 2 (js ''F''))\<rparr>);
                     tm =
                       (case search timeRe body of
                          None \<Rightarrow> None
                        | Some (i, timeMatch) \<Rightarrow>
                            Some \<lparr>val = parseInt (capOr timeMatch 1 (js ''0'')),
                                  unitWord = toLowerCase (capOr timeMatch 2 (js ''minute''))\<rparr>)
                 in Some \<lparr>stepNumber = parseInt stepStr, instructionText = body,
                          temperature = temp, time = tm\<rparr>)))"

definition parseInstructions :: "jsstring \<Rightarrow> ParsedInstruction list" where
  "parseInstructions text_block =
     foldl (\<lambda>instructions line.
              case instructionOfLine line of
                None \<Rightarrow> instructions
              | Some i \<Rightarrow> instructions @ [i])
       [] (splitOn 10 text_block)"

section \<open>Notions of the claims and of the proofs\<close>

text \<open>The loop over the groups computes, for each of the two units, the last group
  that lists it.\<close>

definition groupOf ::
  "jsstring \<Rightarrow> UnitConversion list \<Rightarrow> UnitConversion option \<Rightarrow> UnitConversion option"
where
  "groupOf u cs g0 =
     foldl (\<lambda>g conversion.
              if truthyNum (map_of (conversions conversion) u) then Some conversion else g)
       g0 cs"

text \<open>The remainder that \<open>closestFraction\<close> computes for a quantity, the numerator that
  its loop computes for a denominator, and the error of that numerator. What the search
  holds once it has replaced its start value: a denominator of the list with its numerator
  and its error.\<close>

definition doubleRemainder :: "rat \<Rightarrow> rat" where
  "doubleRemainder v = roundDouble (v - of_int \<lfloor>v\<rfloor>)"

definition numeratorFor :: "rat \<Rightarrow> int \<Rightarrow> int" where
  "numeratorFor r d = mathRound (roundDouble (r * of_int d))"

definition err :: "rat \<Rightarrow> int \<Rightarrow> rat" where
  "err r d = \<bar>roundDouble (roundDouble (of_int (numeratorFor r d) / of_int d) - r)\<bar>"

definition chosen :: "rat \<Rightarrow> int list \<Rightarrow> int \<times> int \<times> rat \<Rightarrow> bool" where
  "chosen r ds b \<longleftrightarrow>
     fst (snd b) \<in> set ds \<and>
     fst b = numeratorFor r (fst (snd b)) \<and>
     snd (snd b) = err r (fst (snd b))"

text \<open>The double \<open>-0.49000000000000005\<close>, which is \<open>-8827055269646173 / 2 ^ 54\<close>.\<close>

definition nearMinusHalf :: rat where
  "nearMinusHalf = - 8827055269646173 / 18014398509481984"

text \<open>
  The parts of a quantity, as C4 speaks of them. A part with a slash has a
  numerator, the text before the first slash, and a denominator, the text between the
  first and the second slash; each is read by \<open>parseFloat\<close>, and an empty one is no
  number. A part is bad when \<open>parseFloat\<close> finds no number at its head, or when its
  denominator is zero. \<open>isNumber\<close> is the stricter reading of "numeric": the whole part
  is one decimal literal, with nothing after it.
\<close>

definition numerOf :: "jsstring \<Rightarrow> rat option" where
  "numerOf part =
     (case splitOn 47 part of [] \<Rightarrow> None | a # _ \<Rightarrow> if a = [] then None else parseFloat a)"

definition denomOf :: "jsstring \<Rightarrow> rat option" where
  "denomOf part =
     (case splitOn 47 part of
        a # b # _ \<Rightarrow> if b = [] then None else parseFloat b
      | _ \<Rightarrow> None)"

definition badPart :: "jsstring \<Rightarrow> bool" where
  "badPart part \<longleftrightarrow>
     (if 47 \<in> set part
      then numerOf part = None \<or> denomOf part = None \<or> denomOf part = Some 0
      else parseFloat part = None)"

definition contribution :: "jsstring \<Rightarrow> rat" where
  "contribution part =
     (if 47 \<in> set part then the (numerOf part) / the (denomOf part)
      else the (parseFloat part))"

definition isNumber :: "jsstring \<Rightarrow> bool" where
  "isNumber part \<longleftrightarrow>
     (case scanFloat part of None \<Rightarrow> False | Some (v, rest) \<Rightarrow> rest = [])"

text \<open>
  The example line of the specification, \<open>1. Preheat oven to 350\<degree>F for 10 minutes.\<close>,
  with the degree sign U+00B0 as the code unit 176, and its text after the step number.
\<close>

definition preheatLine :: jsstring where
  "preheatLine = js ''1. Preheat oven to 350'' @ [176] @ js ''F for 10 minutes.''"

definition preheatText :: jsstring where
  "preheatText = js ''Preheat oven to 350'' @ [176] @ js ''F for 10 minutes.''"

text \<open>
  A line with a leading \<open><integer>. \<close>, as C7 words it: digits, a dot and a space at its
  head.
\<close>

definition leadingStepPattern :: "jsstring \<Rightarrow> bool" where
  "leadingStepPattern line \<longleftrightarrow>
     takeWhile isDigit line \<noteq> [] \<and> startsWith (dropWhile isDigit line) (js ''. '')"

text \<open>
  What the pattern of \<open>parseInstructions\<close> asks of a trimmed line: digits, a dot, white
  space, and after the white space a remainder that is not empty and has no line
  terminator (a carriage return, U+2028 or U+2029) in it.
\<close>

definition stepLine :: "jsstring \<Rightarrow> bool" where
  "stepLine t \<longleftrightarrow>
     (let afterDigits = dropWhile isDigit t;
          afterDot = tl afterDigits;
          remainder = dropWhile isSpace afterDot
      in takeWhile isDigit t \<noteq> [] \<and> afterDigits \<noteq> [] \<and> hd afterDigits = 46 \<and>
         afterDot \<noteq> [] \<and> isSpace (hd afterDot) \<and>
         remainder \<noteq> [] \<and> (\<forall>x \<in> set remainder. \<not> isLineTerminator x))"

section \<open>Evaluation of the tables\<close>

lemma js_Nil: "js [] = []"
  by (simp add: js_def)

lemma js_Cons: "js (c # cs) = of_char c # js cs"
  by (simp add: js_def)

lemmas js_simps = js_Nil js_Cons

lemmas unit_simps =
  normalizeUnit_def UNIT_CONVERSIONS_def UNIT_ALIASES_def js_simps toLowerCase_def
  lowerChar_def trim_def isSpace_def truthyStr_def truthyNum_def

section \<open>The registry invariant\<close>

text \<open>
  C2, as stated, fails: the definition of the category \<open>count\<close> has the base unit
  \<open>count\<close>, and its conversions map has no entry for that name.
\<close>

theorem registry_base_unit_counterexample:
  "baseUnit (snd (UNIT_CONVERSIONS ! 2)) = js ''count'' \<and>
   map_of (conversions (snd (UNIT_CONVERSIONS ! 2))) (baseUnit (snd (UNIT_CONVERSIONS ! 2)))
     \<noteq> Some 1"
  by (simp add: UNIT_CONVERSIONS_def js_simps)

text \<open>
  C2, amended: in every definition of the registry every multiplier is strictly positive;
  the definitions of volume and weight list their base unit with multiplier exactly 1;
  the definition of count has no entry for its base unit, and each of its entries has
  multiplier 1.
\<close>

theorem registry_invariant:
  "(\<forall>c \<in> set (map snd UNIT_CONVERSIONS). \<forall>(u, m) \<in> set (conversions c). 0 < m) \<and>
   (\<forall>c \<in> set (map snd UNIT_CONVERSIONS).
      type c \<noteq> count \<longrightarrow> map_of (conversions c) (baseUnit c) = Some 1) \<and>
   (\<forall>c \<in> set (map snd UNIT_CONVERSIONS).
      type c = count \<longrightarrow>
        map_of (conversions c) (baseUnit c) = None \<and>
        (\<forall>(u, m) \<in> set (conversions c). m = 1))"
  by (simp add: UNIT_CONVERSIONS_def js_simps)

theorem registry_invariant_witness:
  "snd (UNIT_CONVERSIONS ! 0) \<in> set (map snd UNIT_CONVERSIONS) \<and>
   (js ''cup'', 236588 / 1000) \<in> set (conversions (snd (UNIT_CONVERSIONS ! 0))) \<and>
   (0::rat) < 236588 / 1000 \<and>
   type (snd (UNIT_CONVERSIONS ! 0)) \<noteq> count \<and>
   map_of (conversions (snd (UNIT_CONVERSIONS ! 0))) (baseUnit (snd (UNIT_CONVERSIONS ! 0)))
     = Some 1 \<and>
   snd (UNIT_CONVERSIONS ! 2) \<in> set (map snd UNIT_CONVERSIONS) \<and>
   type (snd (UNIT_CONVERSIONS ! 2)) = count \<and>
   map_of (conversions (snd (UNIT_CONVERSIONS ! 2))) (baseUnit (snd (UNIT_CONVERSIONS ! 2)))
     = None"
proof -
  have m: "snd (UNIT_CONVERSIONS ! 0) \<in> set (map snd UNIT_CONVERSIONS)"
    "snd (UNIT_CONVERSIONS ! 2) \<in> set (map snd UNIT_CONVERSIONS)"
    by (simp_all add: UNIT_CONVERSIONS_def)
  have t: "type (snd (UNIT_CONVERSIONS ! 0)) \<noteq> count" "type (snd (UNIT_CONVERSIONS ! 2)) = count"
    by (simp_all add: UNIT_CONVERSIONS_def)
  have e: "(js ''cup'', 236588 / 1000) \<in> set (conversions (snd (UNIT_CONVERSIONS ! 0)))"
    by (simp add: UNIT_CONVERSIONS_def)
  from registry_invariant m t e show ?thesis
    by fastforce
qed

section \<open>Conversion to the base unit and across categories\<close>

lemmas conv_simps = convertQuantity_def findGroups_def orOne_def Let_def unit_simps

lemma foldl_groups:
  "foldl (\<lambda>(fromGroup, toGroup) conversion.
            (if truthyNum (map_of (conversions conversion) a)
             then Some conversion else fromGroup,
             if truthyNum (map_of (conversions conversion) b)
             then Some conversion else toGroup))
     (g1, g2) cs = (groupOf a cs g1, groupOf b cs g2)"
  by (induction cs arbitrary: g1 g2) (simp_all add: groupOf_def)

lemma findGroups_groupOf: "findGroups a b cs = (groupOf a cs None, groupOf b cs None)"
  by (simp add: findGroups_def foldl_groups)

lemma registry_keys:
  assumes "(k, g) \<in> set UNIT_CONVERSIONS" "u \<in> fst ` set (conversions g)"
  shows "(g = snd (UNIT_CONVERSIONS ! 0) \<and>
            u \<in> {js ''ml'', js ''l'', js ''tsp'', js ''tbsp'', js ''cup'', js ''fl oz''}) \<or>
         (g = snd (UNIT_CONVERSIONS ! 1) \<and> u \<in> {js ''g'', js ''kg'', js ''oz'', js ''lb''}) \<or>
         (g = snd (UNIT_CONVERSIONS ! 2) \<and>
            u \<in> {js ''piece'', js ''pieces'', js ''clove'', js ''cloves'', js ''egg'',
                 js ''eggs''})"
  using assms by (auto simp: UNIT_CONVERSIONS_def)

lemma owner_group:
  assumes "(k, g) \<in> set UNIT_CONVERSIONS" "u \<in> fst ` set (conversions g)"
  shows "groupOf u (map snd UNIT_CONVERSIONS) None = Some g"
  using registry_keys [OF assms]
  by (elim disjE conjE insertE emptyE;
      simp add: groupOf_def UNIT_CONVERSIONS_def js_simps truthyNum_def)

lemma convert_volume:
  assumes "(u, m) \<in> set (conversions (snd (UNIT_CONVERSIONS ! 0)))"
  shows "convertQuantity x u (js ''ml'') =
           Some \<lparr>cr_quantity = x * m, cr_unit = js ''ml'',
                 cr_baseQuantity = x * m, cr_baseUnit = js ''ml''\<rparr>"
proof -
  from assms have
    "(u, m) = (js ''ml'', 1) \<or> (u, m) = (js ''l'', 1000) \<or>
     (u, m) = (js ''tsp'', 492892 / 100000) \<or> (u, m) = (js ''tbsp'', 147868 / 10000) \<or>
     (u, m) = (js ''cup'', 236588 / 1000) \<or> (u, m) = (js ''fl oz'', 295735 / 10000)"
    by (simp add: UNIT_CONVERSIONS_def del: prod.inject)
  then show ?thesis
    by (elim disjE; clarify; simp add: conv_simps)
qed

lemma convert_weight:
  assumes "(u, m) \<in> set (conversions (snd (UNIT_CONVERSIONS ! 1)))"
  shows "convertQuantity x u (js ''g'') =
           Some \<lparr>cr_quantity = x * m, cr_unit = js ''g'',
                 cr_baseQuantity = x * m, cr_baseUnit = js ''g''\<rparr>"
proof -
  from assms have
    "(u, m) = (js ''g'', 1) \<or> (u, m) = (js ''kg'', 1000) \<or>
     (u, m) = (js ''oz'', 283495 / 10000) \<or> (u, m) = (js ''lb'', 453592 / 1000)"
    by (simp add: UNIT_CONVERSIONS_def del: prod.inject)
  then show ?thesis
    by (elim disjE; clarify; simp add: conv_simps)
qed

lemma normalize_count: "normalizeUnit (js ''count'') = None"
  by (simp add: unit_simps)

text \<open>
  C1, as stated, fails for the category count: its base unit name \<open>count\<close> is not a unit
  that \<open>normalizeUnit\<close> recognises, so converting a count unit to it returns absence.
\<close>

theorem convert_to_count_counterexample:
  "(js ''piece'', 1) \<in> set (conversions (snd (UNIT_CONVERSIONS ! 2))) \<and>
   baseUnit (snd (UNIT_CONVERSIONS ! 2)) = js ''count'' \<and>
   convertQuantity 2 (js ''piece'') (js ''count'') = None"
  by (simp add: convertQuantity_def normalize_count truthyStr_def UNIT_CONVERSIONS_def)

text \<open>
  C1, amended: for every unit \<open>u\<close> listed with multiplier \<open>m\<close> in the conversions table of
  volume or of weight, and every quantity \<open>x\<close>, \<open>convertQuantity x u base\<close> succeeds, and
  its quantity is \<open>x * m\<close> (exactly, hence within \<open>1e-6\<close>), where \<open>base\<close> is the base unit
  of the category (\<open>ml\<close>, \<open>g\<close>); for a unit of the category count, the conversion to the
  base unit name \<open>count\<close> returns absence.
\<close>

theorem convert_to_base:
  assumes "(k, c) \<in> set UNIT_CONVERSIONS" "(u, m) \<in> set (conversions c)"
  shows "(type c \<noteq> count \<longrightarrow>
            (\<exists>r. convertQuantity x u (baseUnit c) = Some r \<and> cr_quantity r = x * m \<and>
                 \<bar>cr_quantity r - x * m\<bar> \<le> 1 / 10 ^ 6 \<and> cr_unit r = baseUnit c \<and>
                 cr_baseQuantity r = x * m \<and> cr_baseUnit r = baseUnit c)) \<and>
         (type c = count \<longrightarrow> convertQuantity x u (baseUnit c) = None)"
proof -
  from assms(1) consider "c = snd (UNIT_CONVERSIONS ! 0)" | "c = snd (UNIT_CONVERSIONS ! 1)"
    | "c = snd (UNIT_CONVERSIONS ! 2)"
    by (auto simp: UNIT_CONVERSIONS_def)
  then show ?thesis
  proof cases
    case 1
    then have "type c = volume" "baseUnit c = js ''ml''"
      by (simp_all add: UNIT_CONVERSIONS_def)
    with 1 assms(2) show ?thesis
      by (simp add: convert_volume)
  next
    case 2
    then have "type c = weight" "baseUnit c = js ''g''"
      by (simp_all add: UNIT_CONVERSIONS_def)
    with 2 assms(2) show ?thesis
      by (simp add: convert_weight)
  next
    case 3
    then have "type c = count" "baseUnit c = js ''count''"
      by (simp_all add: UNIT_CONVERSIONS_def)
    then show ?thesis
      by (simp add: convertQuantity_def normalize_count truthyStr_def)
  qed
qed

theorem convert_to_base_witness:
  "(js ''ml'', snd (UNIT_CONVERSIONS ! 0)) \<in> set UNIT_CONVERSIONS \<and>
   (js ''cup'', 236588 / 1000) \<in> set (conversions (snd (UNIT_CONVERSIONS ! 0))) \<and>
   type (snd (UNIT_CONVERSIONS ! 0)) \<noteq> count \<and>
   (\<exists>r. convertQuantity 2 (js ''cup'') (js ''ml'') = Some r \<and> cr_quantity r = 473176 / 1000)"
proof -
  have k: "(js ''ml'', snd (UNIT_CONVERSIONS ! 0)) \<in> set UNIT_CONVERSIONS"
    by (simp add: UNIT_CONVERSIONS_def)
  have u: "(js ''cup'', 236588 / 1000) \<in> set (conversions (snd (UNIT_CONVERSIONS ! 0)))"
    by (simp add: UNIT_CONVERSIONS_def)
  have t: "type (snd (UNIT_CONVERSIONS ! 0)) \<noteq> count"
    "baseUnit (snd (UNIT_CONVERSIONS ! 0)) = js ''ml''"
    by (simp_all add: UNIT_CONVERSIONS_def)
  from convert_to_base [OF k u, of 2] t
  have "\<exists>r. convertQuantity 2 (js ''cup'') (js ''ml'') = Some r \<and> cr_quantity r = 473176 / 1000"
    by auto
  with k u t show ?thesis
    by blast
qed

text \<open>
  C3: for every quantity and every pair of recognised units whose owning definitions have
  different base units, \<open>convertQuantity\<close> returns absence. The owning definition of a
  normalised unit is a definition of the registry whose conversions map lists it.
\<close>

theorem cross_category_absent:
  assumes "normalizeUnit fromUnit = Some nf" "normalizeUnit toUnit = Some nt"
    and "(kf, gf) \<in> set UNIT_CONVERSIONS" "nf \<in> fst ` set (conversions gf)"
    and "(kt, gt) \<in> set UNIT_CONVERSIONS" "nt \<in> fst ` set (conversions gt)"
    and "baseUnit gf \<noteq> baseUnit gt"
  shows "convertQuantity x fromUnit toUnit = None"
proof -
  have "findGroups nf nt (map snd UNIT_CONVERSIONS) = (Some gf, Some gt)"
    by (simp add: findGroups_groupOf owner_group [OF assms(3,4)] owner_group [OF assms(5,6)])
  with assms(1,2,7) show ?thesis
    by (simp add: convertQuantity_def Let_def)
qed

theorem cross_category_absent_witness:
  "normalizeUnit (js ''Cups'') = Some (js ''cup'') \<and>
   normalizeUnit (js ''g'') = Some (js ''g'') \<and>
   (js ''ml'', snd (UNIT_CONVERSIONS ! 0)) \<in> set UNIT_CONVERSIONS \<and>
   js ''cup'' \<in> fst ` set (conversions (snd (UNIT_CONVERSIONS ! 0))) \<and>
   (js ''g'', snd (UNIT_CONVERSIONS ! 1)) \<in> set UNIT_CONVERSIONS \<and>
   js ''g'' \<in> fst ` set (conversions (snd (UNIT_CONVERSIONS ! 1))) \<and>
   baseUnit (snd (UNIT_CONVERSIONS ! 0)) \<noteq> baseUnit (snd (UNIT_CONVERSIONS ! 1)) \<and>
   convertQuantity 3 (js ''Cups'') (js ''g'') = None"
proof -
  have n: "normalizeUnit (js ''Cups'') = Some (js ''cup'')"
    "normalizeUnit (js ''g'') = Some (js ''g'')"
    by (simp_all add: unit_simps)
  have k: "(js ''ml'', snd (UNIT_CONVERSIONS ! 0)) \<in> set UNIT_CONVERSIONS"
    "(js ''g'', snd (UNIT_CONVERSIONS ! 1)) \<in> set UNIT_CONVERSIONS"
    by (simp_all add: UNIT_CONVERSIONS_def)
  have u: "js ''cup'' \<in> fst ` set (conversions (snd (UNIT_CONVERSIONS ! 0)))"
    "js ''g'' \<in> fst ` set (conversions (snd (UNIT_CONVERSIONS ! 1)))"
    by (simp_all add: UNIT_CONVERSIONS_def)
  have b: "baseUnit (snd (UNIT_CONVERSIONS ! 0)) \<noteq> baseUnit (snd (UNIT_CONVERSIONS ! 1))"
    by (simp add: UNIT_CONVERSIONS_def js_simps)
  from cross_category_absent [OF n(1) n(2) k(1) u(1) k(2) u(2) b, of 3] n k u b
  show ?thesis
    by simp
qed

section \<open>The fraction search\<close>

lemma digitsOf_small: "n < 10 \<Longrightarrow> digitsOf n = [48 + n]"
  by (simp add: digitsOf.simps)

lemma digitsOf_big: "\<not> n < 10 \<Longrightarrow> digitsOf n = digitsOf (n div 10) @ [48 + n mod 10]"
  by (subst digitsOf.simps) simp

lemma floor_rat_div_numeral: "\<lfloor>(numeral a :: rat) / numeral b\<rfloor> = numeral a div numeral b"
  by (metis floor_divide_of_int_eq of_int_numeral)

lemma floor_rat_minus_div_numeral: "\<lfloor>- ((numeral a :: rat) / numeral b)\<rfloor> = - numeral a div numeral b"
  by (metis floor_divide_of_int_eq of_int_numeral of_int_neg_numeral minus_divide_left)

lemma floor_rat_one_div_numeral: "\<lfloor>(1 :: rat) / numeral b\<rfloor> = 1 div numeral b"
  by (metis floor_divide_of_int_eq of_int_numeral of_int_1)

lemma floor_rat_minus_one_div_numeral:
  "\<lfloor>- ((1 :: rat) / numeral b)\<rfloor> = - 1 div numeral b"
  by (metis floor_divide_of_int_eq of_int_numeral of_int_1 of_int_minus minus_divide_left)

lemma upto_1_16: "[1..16::int] = [1, 2, 3, 4, 5, 6, 7, 8, 9, 10, 11, 12, 13, 14, 15, 16]"
  by (simp add: upto_rec1)

lemmas floor_simps =
  floor_rat_div_numeral floor_rat_minus_div_numeral floor_rat_one_div_numeral
  floor_rat_minus_one_div_numeral

lemmas digit_simps = intToString_def digitsOf_small digitsOf_big js_simps

subsection \<open>Evaluating the rounding to a double\<close>

text \<open>\<open>roundDouble\<close> is unfolded at numerals only, where every step of it evaluates.\<close>

lemma bits_0: "bits 0 = 0"
  by (simp add: bits.simps)

lemma bits_pos: "0 < n \<Longrightarrow> bits n = Suc (bits (n div 2))"
  by (subst bits.simps) simp

lemma roundDouble_pos:
  "0 < x \<Longrightarrow>
   roundDouble x =
     of_int (roundHalfEven (x / pow2 (max (ilog2 x - 52) (- 1074)))) *
     pow2 (max (ilog2 x - 52) (- 1074))"
  by (simp add: roundDouble_def Let_def)

lemma roundDouble_0: "roundDouble 0 = 0"
  by (simp add: roundDouble_def)

lemma roundDouble_minus: "roundDouble (- x) = - roundDouble x"
  by (simp add: roundDouble_def Let_def sgn_minus)

lemma roundDouble_frac:
  "roundDouble (numeral a / numeral b) =
     of_int (roundHalfEven (numeral a / numeral b /
               pow2 (max (ilog2 (numeral a / numeral b) - 52) (- 1074)))) *
     pow2 (max (ilog2 (numeral a / numeral b) - 52) (- 1074))"
  by (rule roundDouble_pos) simp

lemma roundDouble_unit_frac:
  "roundDouble (1 / numeral b) =
     of_int (roundHalfEven (1 / numeral b / pow2 (max (ilog2 (1 / numeral b) - 52) (- 1074)))) *
     pow2 (max (ilog2 (1 / numeral b) - 52) (- 1074))"
  by (rule roundDouble_pos) simp

lemma roundDouble_numeral:
  "roundDouble (numeral a) =
     of_int (roundHalfEven (numeral a / pow2 (max (ilog2 (numeral a) - 52) (- 1074)))) *
     pow2 (max (ilog2 (numeral a) - 52) (- 1074))"
  by (rule roundDouble_pos) simp

lemma roundDouble_1: "roundDouble 1 = 1"
  by (simp add: roundDouble_pos ilog2_def pow2_def roundHalfEven_def bits_0 bits_pos)

lemmas double_simps =
  roundDouble_0 roundDouble_1 roundDouble_minus roundDouble_frac roundDouble_unit_frac
  roundDouble_numeral ilog2_def pow2_def roundHalfEven_def Let_def floor_simps ceiling_def
  bits_0 bits_pos

lemmas fold_simps = maxDenominator_def upto_1_16 fractionStep_def mathRound_def double_simps

lemma threshold: "roundDouble (1 / 100) = 5764607523034235 / 576460752303423488"
  by (simp add: double_simps)

subsection \<open>The error of the rounding\<close>

lemma pow2_pos: "0 < pow2 e"
  by (simp add: pow2_def)

lemma pow2_small: "q \<le> - 47 \<Longrightarrow> pow2 q \<le> 1 / 2 ^ 47"
proof -
  assume q: "q \<le> - 47"
  then have "(2::rat) ^ 47 \<le> 2 ^ nat (- q)"
    by (intro power_increasing) auto
  with q show ?thesis
    by (simp add: pow2_def frac_le)
qed

lemma roundHalfEven_near: "\<bar>of_int (roundHalfEven m) - m\<bar> \<le> 1 / 2"
proof -
  have "of_int \<lfloor>m\<rfloor> \<le> m" "m < of_int \<lfloor>m\<rfloor> + 1"
    by linarith+
  then show ?thesis
    by (auto simp: roundHalfEven_def Let_def)
qed

lemma roundHalfEven_nonneg: "0 \<le> m \<Longrightarrow> 0 \<le> roundHalfEven m"
  by (auto simp: roundHalfEven_def Let_def)

lemma roundDouble_nonneg: "0 \<le> x \<Longrightarrow> 0 \<le> roundDouble x"
proof (cases "x = 0")
  case True
  then show ?thesis by (simp add: roundDouble_0)
next
  case False
  assume "0 \<le> x"
  with False have x: "0 < x" by simp
  have "0 \<le> x / pow2 (max (ilog2 x - 52) (- 1074))"
    using x pow2_pos [of "max (ilog2 x - 52) (- 1074)"] by simp
  then have "0 \<le> roundHalfEven (x / pow2 (max (ilog2 x - 52) (- 1074)))"
    by (rule roundHalfEven_nonneg)
  then show ?thesis
    using pow2_pos [of "max (ilog2 x - 52) (- 1074)"]
    by (simp add: roundDouble_pos [OF x])
qed

lemma bits_le: "n < 2 ^ k \<Longrightarrow> bits n \<le> k"
proof (induction k arbitrary: n)
  case 0
  then show ?case by (simp add: bits_0)
next
  case (Suc k)
  show ?case
  proof (cases "n = 0")
    case True
    then show ?thesis by (simp add: bits_0)
  next
    case False
    from Suc.prems have "n div 2 < 2 ^ k" by simp
    then have "bits (n div 2) \<le> k" by (rule Suc.IH)
    with False show ?thesis by (simp add: bits_pos)
  qed
qed

lemma ilog2_le:
  assumes "a \<le> 32"
  shows "ilog2 a \<le> 5"
proof (cases "1 \<le> a")
  case True
  from assms have "\<lfloor>a\<rfloor> \<le> 32" by (simp add: floor_le_iff)
  then have "nat \<lfloor>a\<rfloor> < 64" by linarith
  also have "(64::nat) = 2 ^ 6" by simp
  finally have "nat \<lfloor>a\<rfloor> < 2 ^ 6" .
  then have "bits (nat \<lfloor>a\<rfloor>) \<le> 6" by (rule bits_le)
  with True show ?thesis by (simp add: ilog2_def)
next
  case False
  then show ?thesis by (simp add: ilog2_def)
qed

text \<open>Up to 32 in magnitude, the rounding moves a value by at most \<open>2 ^ -48\<close>.\<close>

lemma roundDouble_error:
  assumes "\<bar>x\<bar> \<le> 32"
  shows "\<bar>roundDouble x - x\<bar> \<le> 1 / 2 ^ 48"
proof (cases "x = 0")
  case True
  then show ?thesis by (simp add: roundDouble_0)
next
  case False
  define a where "a = \<bar>x\<bar>"
  define q where "q = max (ilog2 a - 52) (- 1074)"
  define n where "n = roundHalfEven (a / pow2 q)"
  have "ilog2 a \<le> 5"
    using assms by (intro ilog2_le) (simp add: a_def)
  then have "q \<le> - 47"
    by (simp add: q_def)
  then have small: "pow2 q \<le> 1 / 2 ^ 47"
    by (rule pow2_small)
  have pos: "0 < pow2 q"
    by (rule pow2_pos)
  have rd: "roundDouble x = sgn x * of_int n * pow2 q"
    using False by (simp add: roundDouble_def Let_def a_def q_def n_def)
  have x: "x = sgn x * (a / pow2 q) * pow2 q"
    using pos by (simp add: a_def sgn_mult_abs)
  have "roundDouble x - x = sgn x * ((of_int n - a / pow2 q) * pow2 q)"
    by (subst x, subst rd) (simp add: algebra_simps)
  then have "\<bar>roundDouble x - x\<bar> = \<bar>of_int n - a / pow2 q\<bar> * pow2 q"
    using False pos by (simp add: abs_mult abs_sgn_eq)
  also have "\<dots> \<le> 1 / 2 * pow2 q"
    using roundHalfEven_near [of "a / pow2 q"] pos
    by (intro mult_right_mono) (simp_all add: n_def)
  also have "\<dots> \<le> 1 / 2 * (1 / 2 ^ 47)"
    using small by simp
  finally show ?thesis by simp
qed

subsection \<open>What the search holds\<close>

lemma fractionStep_err:
  "fractionStep r b d =
     (if err r d < snd (snd b) then (numeratorFor r d, d, err r d) else b)"
  by (simp add: fractionStep_def err_def numeratorFor_def Let_def)

lemma fold_error_le: "snd (snd (foldl (fractionStep r) b ds)) \<le> snd (snd b)"
proof (induction ds arbitrary: b)
  case Nil
  then show ?case by simp
next
  case (Cons d ds)
  have "snd (snd (fractionStep r b d)) \<le> snd (snd b)"
    by (simp add: fractionStep_err)
  with Cons [of "fractionStep r b d"] show ?case
    by simp
qed

lemma fold_error_min:
  "d \<in> set ds \<Longrightarrow> snd (snd (foldl (fractionStep r) b ds)) \<le> err r d"
proof (induction ds arbitrary: b)
  case Nil
  then show ?case by simp
next
  case (Cons x ds)
  show ?case
  proof (cases "d = x")
    case True
    have "snd (snd (fractionStep r b x)) \<le> err r x"
      by (simp add: fractionStep_err)
    with fold_error_le [of r "fractionStep r b x" ds] True show ?thesis
      by simp
  next
    case False
    with Cons.prems have "d \<in> set ds" by simp
    from Cons.IH [OF this, of "fractionStep r b x"] show ?thesis
      by simp
  qed
qed

lemma fold_chosen:
  "foldl (fractionStep r) b ds = b \<or> chosen r ds (foldl (fractionStep r) b ds)"
proof (induction ds arbitrary: b)
  case Nil
  then show ?case by simp
next
  case (Cons x ds)
  have mono: "chosen r ds c \<Longrightarrow> chosen r (x # ds) c" for c
    by (simp add: chosen_def)
  have first: "fractionStep r b x = b \<or> chosen r (x # ds) (fractionStep r b x)"
    by (simp add: fractionStep_err chosen_def)
  from Cons [of "fractionStep r b x"] show ?case
  proof
    assume "foldl (fractionStep r) (fractionStep r b x) ds = fractionStep r b x"
    with first show ?thesis by auto
  next
    assume "chosen r ds (foldl (fractionStep r) (fractionStep r b x) ds)"
    then show ?thesis by (simp add: mono)
  qed
qed

text \<open>The comparison is strict, so the search keeps the first denominator of the least
  error: every denominator before the one it holds has a larger error.\<close>

lemma fold_first:
  "foldl (fractionStep r) b ds = b \<or>
   (\<exists>pre post. ds = pre @ fst (snd (foldl (fractionStep r) b ds)) # post \<and>
      (\<forall>x \<in> set pre. snd (snd (foldl (fractionStep r) b ds)) < err r x))"
proof (induction ds rule: rev_induct)
  case Nil
  then show ?case by simp
next
  case (snoc x ds)
  define c where "c = foldl (fractionStep r) b ds"
  have f: "foldl (fractionStep r) b (ds @ [x]) = fractionStep r c x"
    by (simp add: c_def)
  show ?case
  proof (cases "err r x < snd (snd c)")
    case True
    have "\<forall>y \<in> set ds. err r x < err r y"
    proof
      fix y
      assume "y \<in> set ds"
      then have "snd (snd c) \<le> err r y"
        unfolding c_def by (rule fold_error_min)
      with True show "err r x < err r y" by simp
    qed
    with True have
      "ds @ [x] = ds @ fst (snd (fractionStep r c x)) # [] \<and>
       (\<forall>y \<in> set ds. snd (snd (fractionStep r c x)) < err r y)"
      by (simp add: fractionStep_err)
    then show ?thesis
      unfolding f by blast
  next
    case False
    then have s: "fractionStep r c x = c"
      by (simp add: fractionStep_err)
    from snoc [folded c_def] show ?thesis
    proof
      assume "c = b"
      then show ?thesis unfolding f s by simp
    next
      assume "\<exists>pre post. ds = pre @ fst (snd c) # post \<and> (\<forall>x \<in> set pre. snd (snd c) < err r x)"
      then obtain pre post where
        "ds = pre @ fst (snd c) # post" "\<forall>x \<in> set pre. snd (snd c) < err r x"
        by blast
      then have
        "ds @ [x] = pre @ fst (snd c) # (post @ [x]) \<and> (\<forall>x \<in> set pre. snd (snd c) < err r x)"
        by simp
      then show ?thesis
        unfolding f s by blast
    qed
  qed
qed

lemma upto_before:
  assumes "[1..m] = pre @ d # post" and "1 \<le> k" and "k < d"
  shows "k \<in> set pre"
proof -
  have "d \<in> set [1..m]"
    by (simp add: assms(1))
  then have "d \<le> m" by simp
  with assms(2,3) have "k \<in> set [1..m]" by simp
  then have "k \<in> set (pre @ d # post)"
    by (simp only: assms(1))
  then have "k \<in> set pre \<or> k = d \<or> k \<in> set post"
    by auto
  moreover have "sorted (pre @ d # post)"
    using sorted_upto [of 1 m] by (simp add: assms(1))
  then have "\<forall>y \<in> set post. d \<le> y"
    by (simp add: sorted_append)
  ultimately show ?thesis
    using assms(3) by auto
qed

lemma digitsOf_digits: "c \<in> set (digitsOf n) \<Longrightarrow> 48 \<le> c \<and> c \<le> 57"
proof (induction n rule: digitsOf.induct)
  case (1 n)
  show ?case
  proof (cases "n < 10")
    case True
    with "1.prems" show ?thesis by (simp add: digitsOf_small)
  next
    case False
    with "1.prems" have "c \<in> set (digitsOf (n div 10)) \<or> c = 48 + n mod 10"
      by (auto simp: digitsOf_big)
    then show ?thesis
    proof
      assume "c \<in> set (digitsOf (n div 10))"
      with "1.IH" False show ?thesis by simp
    next
      assume "c = 48 + n mod 10"
      moreover have "n mod 10 < 10" by simp
      ultimately show ?thesis by linarith
    qed
  qed
qed

subsection \<open>The remainder, the first round and a remainder near a fraction\<close>

lemma remainder_range: "0 \<le> v - of_int \<lfloor>v\<rfloor>" "v - of_int \<lfloor>v\<rfloor> < 1"
  by linarith+

lemma doubleRemainder_range:
  "0 \<le> doubleRemainder v" "doubleRemainder v \<le> 1 + 1 / 2 ^ 48"
proof -
  have r: "0 \<le> v - of_int \<lfloor>v\<rfloor>" "v - of_int \<lfloor>v\<rfloor> < 1"
    by linarith+
  from r(1) show "0 \<le> doubleRemainder v"
    unfolding doubleRemainder_def by (rule roundDouble_nonneg)
  from r have "\<bar>v - of_int \<lfloor>v\<rfloor>\<bar> \<le> 32" by linarith
  from roundDouble_error [OF this] r show "doubleRemainder v \<le> 1 + 1 / 2 ^ 48"
    unfolding doubleRemainder_def by linarith
qed

lemma mathRound_near: "\<bar>of_int (mathRound x) - x\<bar> \<le> 1 / 2"
  unfolding mathRound_def by linarith

lemma mathRound_eq:
  assumes "\<bar>x - of_int n\<bar> < 1 / 2"
  shows "mathRound x = n"
  unfolding mathRound_def using assms by (intro floor_unique) linarith+

lemma numeratorFor_nonneg:
  assumes "0 \<le> r" and "0 \<le> d"
  shows "0 \<le> numeratorFor r d"
proof -
  have "0 \<le> r * of_int d"
    using assms by simp
  then have "0 \<le> roundDouble (r * of_int d)"
    by (rule roundDouble_nonneg)
  then show ?thesis
    by (simp add: numeratorFor_def mathRound_def)
qed

text \<open>The first round, with the denominator 1, has an error below 1, so it replaces the
  start value.\<close>

lemma err_first:
  assumes "0 \<le> r" and "r \<le> 1 + 1 / 2 ^ 48"
  shows "err r 1 < 1"
proof -
  define e :: rat where "e = 1 / 2 ^ 48"
  define p where "p = roundDouble r"
  define m where "m = mathRound p"
  define w where "w = roundDouble (of_int m)"
  have e: "e = 1 / 281474976710656"
    by (simp add: e_def)
  from assms have "\<bar>r\<bar> \<le> 32" by simp
  from roundDouble_error [OF this] have p: "\<bar>p - r\<bar> \<le> e"
    by (simp add: p_def e_def)
  have m: "\<bar>of_int m - p\<bar> \<le> 1 / 2"
    unfolding m_def by (rule mathRound_near)
  from assms have r: "0 \<le> r" "r \<le> 2" by simp_all
  from r p m have "\<bar>of_int m :: rat\<bar> \<le> 32"
    unfolding e by linarith
  from roundDouble_error [OF this] have w: "\<bar>w - of_int m\<bar> \<le> e"
    by (simp add: w_def e_def)
  from r p m w have "\<bar>w - r\<bar> \<le> 32"
    unfolding e by linarith
  from roundDouble_error [OF this] have "\<bar>roundDouble (w - r) - (w - r)\<bar> \<le> e"
    by (simp add: e_def)
  with p m w have "\<bar>roundDouble (w - r)\<bar> < 1"
    unfolding e by linarith
  then show ?thesis
    by (simp add: err_def numeratorFor_def w_def m_def p_def)
qed

lemma err_margin:
  assumes x: "0 \<le> x" "x < 1" and d: "1 \<le> d" "d \<le> 16"
    and close: "\<bar>of_int n / of_int d - x\<bar> \<le> 1 / 100 - 1 / 2 ^ 45"
  shows "err (roundDouble x) d < roundDouble (1 / 100)"
proof -
  define e :: rat where "e = 1 / 2 ^ 48"
  define r where "r = roundDouble x"
  define D :: rat where "D = of_int d"
  define N :: rat where "N = of_int n"
  define p where "p = roundDouble (r * D)"
  define w where "w = roundDouble (N / D)"
  have e: "e = 1 / 281474976710656"
    by (simp add: e_def)
  have D: "1 \<le> D" "D \<le> 16"
    using d by (simp_all add: D_def)
  have c: "\<bar>N / D - x\<bar> \<le> 1 / 100 - 8 * e"
    using close by (simp add: N_def D_def e)
  from x have "\<bar>x\<bar> \<le> 32" by linarith
  from roundDouble_error [OF this] have r: "\<bar>r - x\<bar> \<le> e"
    by (simp add: r_def e_def)
  have "N - x * D = (N / D - x) * D"
    using D by (simp add: field_simps)
  then have "\<bar>N - x * D\<bar> = \<bar>N / D - x\<bar> * D"
    using D by (simp add: abs_mult)
  also have "\<dots> \<le> (1 / 100) * 16"
    using c D unfolding e by (intro mult_mono) linarith+
  finally have nx: "\<bar>N - x * D\<bar> \<le> 16 / 100"
    by simp
  have "\<bar>r * D - x * D\<bar> = \<bar>r - x\<bar> * D"
    using D by (simp add: abs_mult left_diff_distrib [symmetric])
  also have "\<dots> \<le> e * 16"
    using r D unfolding e by (intro mult_mono) linarith+
  finally have rx: "\<bar>r * D - x * D\<bar> \<le> 16 * e"
    by simp
  have "\<bar>r * D\<bar> = \<bar>r\<bar> * D"
    using D by (simp add: abs_mult)
  also have "\<dots> \<le> 2 * 16"
    using r x D unfolding e by (intro mult_mono) linarith+
  finally have "\<bar>r * D\<bar> \<le> 32"
    by simp
  from roundDouble_error [OF this] have p: "\<bar>p - r * D\<bar> \<le> e"
    by (simp add: p_def e_def)
  from p rx nx have "\<bar>p - of_int n\<bar> < 1 / 2"
    unfolding e N_def by linarith
  then have "mathRound p = n"
    by (rule mathRound_eq)
  then have num: "numeratorFor r d = n"
    by (simp add: numeratorFor_def p_def D_def)
  from c x have "\<bar>N / D\<bar> \<le> 32"
    unfolding e by linarith
  from roundDouble_error [OF this] have w: "\<bar>w - N / D\<bar> \<le> e"
    by (simp add: w_def e_def)
  from w c r x have "\<bar>w - r\<bar> \<le> 32"
    unfolding e by linarith
  from roundDouble_error [OF this] have "\<bar>roundDouble (w - r) - (w - r)\<bar> \<le> e"
    by (simp add: e_def)
  with w c r have "\<bar>roundDouble (w - r)\<bar> \<le> 1 / 100 - 5 * e"
    by linarith
  then have "\<bar>roundDouble (w - r)\<bar> < roundDouble (1 / 100)"
    unfolding e threshold by linarith
  then show ?thesis
    by (simp add: err_def num r_def [symmetric] w_def N_def D_def)
qed

lemma search_characterised:
  assumes "0 \<le> r" and "r \<le> 1 + 1 / 2 ^ 48"
  defines "b \<equiv> foldl (fractionStep r) (0, 1, 1) [1..maxDenominator]"
  shows "1 \<le> fst (snd b)" "fst (snd b) \<le> 16"
    "fst b = numeratorFor r (fst (snd b))" "snd (snd b) = err r (fst (snd b))"
    "1 \<le> k \<Longrightarrow> k \<le> 16 \<Longrightarrow> snd (snd b) \<le> err r k"
    "1 \<le> k \<Longrightarrow> k < fst (snd b) \<Longrightarrow> snd (snd b) < err r k"
proof -
  have "snd (snd b) \<le> err r 1"
    unfolding b_def by (rule fold_error_min) (simp add: maxDenominator_def)
  also have "\<dots> < 1"
    using assms(1,2) by (rule err_first)
  finally have ne: "b \<noteq> (0, 1, 1)"
    by auto
  with fold_chosen [of r "(0, 1, 1)" "[1..maxDenominator]"]
  have c: "chosen r [1..maxDenominator] b"
    by (simp add: b_def)
  then show "1 \<le> fst (snd b)" "fst (snd b) \<le> 16"
    "fst b = numeratorFor r (fst (snd b))" "snd (snd b) = err r (fst (snd b))"
    by (simp_all add: chosen_def maxDenominator_def)
  show "snd (snd b) \<le> err r k" if "1 \<le> k" "k \<le> 16"
    unfolding b_def using that by (intro fold_error_min) (simp add: maxDenominator_def)
  show "snd (snd b) < err r k" if k: "1 \<le> k" "k < fst (snd b)"
  proof -
    from fold_first [of r "(0, 1, 1)" "[1..maxDenominator]"] ne
    obtain pre post where
      l: "[1..maxDenominator] = pre @ fst (snd b) # post"
      and f: "\<forall>x \<in> set pre. snd (snd b) < err r x"
      unfolding b_def [symmetric] by blast
    from l k have "k \<in> set pre"
      by (rule upto_before)
    with f show ?thesis
      by blast
  qed
qed

section \<open>Rendering a remainder that rounds up to a whole unit\<close>

lemma r0999: "roundDouble (999 / 1000) = 8998192055486251 / 9007199254740992"
  by (simp add: double_simps)

lemma search_0999:
  "foldl (fractionStep (8998192055486251 / 9007199254740992)) (0, 1, 1) [1..maxDenominator] =
     (1, 1, 9007199254741 / 9007199254740992)"
  by (simp add: fold_simps)

lemma closest_0999:
  "closestFraction (999 / 1000) =
     Some \<lparr>whole = 1, numerator = 1, denominator = 1, error = 0\<rparr>"
  by (simp add: closestFraction_def Let_def floor_simps r0999 search_0999)

text \<open>The literal \<open>0.999\<close> is a double below 1, so its remainder is the literal itself.\<close>

lemma double_0999_fixed:
  "roundDouble (8998192055486251 / 9007199254740992) = 8998192055486251 / 9007199254740992"
  by (simp add: double_simps)

lemma double_0999_rendered: "formatQuantity (roundDouble (999 / 1000)) = js ''1 1/1''"
proof -
  have "closestFraction (8998192055486251 / 9007199254740992) =
          Some \<lparr>whole = 1, numerator = 1, denominator = 1, error = 0\<rparr>"
    by (simp add: closestFraction_def Let_def floor_simps double_0999_fixed search_0999)
  then show ?thesis
    by (simp add: r0999 formatQuantity_def isWhole_def floor_simps digit_simps threshold
        del: of_int_floor_cancel)
qed

text \<open>
  C5 says that a remainder rounded up to a whole unit renders as the plain whole number
  \<open>whole + 1\<close>, so that \<open>0.999\<close> renders as \<open>1\<close>. The code renders \<open>0.999\<close> as
  \<open>1 1/1\<close>: \<open>closestFraction\<close> returns \<open>whole + 1\<close> with the fraction \<open>1/1\<close> and error 0,
  and \<open>formatQuantity\<close> prints that fraction after the whole part.
\<close>

theorem format_0999: "formatQuantity (999 / 1000) = js ''1 1/1''"
  by (simp add: formatQuantity_def isWhole_def closest_0999 floor_simps digit_simps threshold
      del: of_int_floor_cancel)

section \<open>Negative quantities\<close>

lemma search_half:
  "foldl (fractionStep (1 / 2)) (0, 1, 1) [1..maxDenominator] = (1, 2, 0)"
  by (simp add: fold_simps)

lemma search_three_quarters:
  "foldl (fractionStep (3 / 4)) (0, 1, 1) [1..maxDenominator] = (3, 4, 0)"
  by (simp add: fold_simps)

lemma search_051:
  "foldl (fractionStep (2296835809958953 / 4503599627370496)) (0, 1, 1) [1..maxDenominator] =
     (1, 2, 45035996273705 / 4503599627370496)"
  by (simp add: fold_simps)

lemma round_half: "roundDouble (1 / 2) = 1 / 2"
  by (simp add: double_simps)

lemma round_three_quarters: "roundDouble (3 / 4) = 3 / 4"
  by (simp add: double_simps)

lemma round_051:
  "roundDouble (9187343239835811 / 18014398509481984) = 2296835809958953 / 4503599627370496"
  by (simp add: double_simps)

lemma format_minus_half: "formatQuantity (- 1 / 2) = js ''1/2''"
proof -
  have "closestFraction (- 1 / 2) =
          Some \<lparr>whole = - 1, numerator = 1, denominator = 2, error = 0\<rparr>"
    by (simp add: closestFraction_def Let_def floor_simps round_half search_half)
  then show ?thesis
    by (simp add: formatQuantity_def isWhole_def floor_simps digit_simps threshold
        del: of_int_floor_cancel)
qed

lemma format_minus_five_halves: "formatQuantity (- 5 / 2) = js ''1/2''"
proof -
  have "closestFraction (- 5 / 2) =
          Some \<lparr>whole = - 3, numerator = 1, denominator = 2, error = 0\<rparr>"
    by (simp add: closestFraction_def Let_def floor_simps round_half search_half)
  then show ?thesis
    by (simp add: formatQuantity_def isWhole_def floor_simps digit_simps threshold
        del: of_int_floor_cancel)
qed

lemma format_minus_quarter: "formatQuantity (- 1 / 4) = js ''3/4''"
proof -
  have "closestFraction (- 1 / 4) =
          Some \<lparr>whole = - 1, numerator = 3, denominator = 4, error = 0\<rparr>"
    by (simp add: closestFraction_def Let_def floor_simps round_three_quarters
        search_three_quarters)
  then show ?thesis
    by (simp add: formatQuantity_def isWhole_def floor_simps digit_simps threshold
        del: of_int_floor_cancel)
qed

lemma closest_nearMinusHalf:
  "closestFraction nearMinusHalf =
     Some \<lparr>whole = - 1, numerator = 1, denominator = 2,
            error = 45035996273705 / 4503599627370496\<rparr>"
  by (simp add: closestFraction_def nearMinusHalf_def Let_def floor_simps round_051 search_051)

lemma format_nearMinusHalf: "formatQuantity nearMinusHalf = js ''-0.49''"
proof -
  have "\<not> isWhole nearMinusHalf"
    by (simp add: isWhole_def nearMinusHalf_def floor_simps del: of_int_floor_cancel)
  moreover have "toFixed2 nearMinusHalf = js ''-0.49''"
    by (simp add: toFixed2_def nearMinusHalf_def Let_def floor_simps digit_simps)
  ultimately show ?thesis
    by (simp add: formatQuantity_def closest_nearMinusHalf threshold)
qed

lemma nearMinusHalf_double: "roundDouble nearMinusHalf = nearMinusHalf"
  by (simp add: nearMinusHalf_def double_simps)

lemma nearMinusHalf_close:
  "\<bar>1 / 2 - (nearMinusHalf - of_int \<lfloor>nearMinusHalf\<rfloor>)\<bar> < 1 / 100"
  by (simp add: nearMinusHalf_def floor_simps)

text \<open>
  C10 says that every negative value that is not whole and whose remainder \<open>v - floor v\<close>
  lies within \<open>0.01\<close> of a fraction with a denominator of at most 16 is rendered as a bare
  fraction without a sign. The double \<open>-0.49000000000000005\<close> is negative and not whole,
  and its remainder is less than \<open>0.01\<close> away from \<open>1/2\<close>; but the subtraction
  \<open>decimal - whole\<close> rounds the remainder to the double \<open>0.51\<close>, the error computed for
  \<open>1/2\<close> is \<open>0.010000000000000009\<close>, which is not below the threshold, and
  \<open>formatQuantity\<close> returns \<open>-0.49\<close>, with the minus sign.
\<close>

theorem negative_boundary_counterexample:
  "nearMinusHalf < 0 \<and> \<not> isWhole nearMinusHalf \<and> roundDouble nearMinusHalf = nearMinusHalf \<and>
   \<bar>1 / 2 - (nearMinusHalf - of_int \<lfloor>nearMinusHalf\<rfloor>)\<bar> < 1 / 100 \<and>
   formatQuantity nearMinusHalf = js ''-0.49''"
proof -
  have "nearMinusHalf < 0" "\<not> isWhole nearMinusHalf"
    by (simp_all add: nearMinusHalf_def isWhole_def floor_simps del: of_int_floor_cancel)
  then show ?thesis
    using nearMinusHalf_double nearMinusHalf_close format_nearMinusHalf by blast
qed

text \<open>
  C10, amended: let \<open>v\<close> be negative and not whole, and \<open>r\<close> the remainder as the code
  computes it, the double nearest to \<open>v - floor v\<close>. The search settles on the first
  denominator \<open>d\<close> from 1 to 16 whose error, computed in double arithmetic, is least, with
  the numerator \<open>Math.round (r * d)\<close>, which is not negative. If that numerator equals \<open>d\<close>
  the result is \<open>1/1\<close>; otherwise, if the error is below the double \<open>0.01\<close>, the result is
  the numerator, a slash and the denominator; in both cases it has no minus sign and no
  whole part (no space). Otherwise the result is \<open>v.toFixed(2)\<close>, which starts with the
  minus sign. The result is one of the two fractions whenever the exact remainder is at
  most \<open>0.01 - 2 ^ -45\<close> away from some fraction \<open>n/k\<close> with \<open>1 \<le> k \<le> 16\<close>. In
  particular \<open>formatQuantity (-0.5)\<close> and \<open>formatQuantity (-2.5)\<close> are both \<open>1/2\<close>, and
  \<open>formatQuantity (-0.25)\<close> is \<open>3/4\<close>.
\<close>

theorem negative_fraction:
  assumes "v < 0" and "\<not> isWhole v"
  shows
    "(\<exists>d. 1 \<le> d \<and> d \<le> 16 \<and>
        (\<forall>k. 1 \<le> k \<and> k \<le> 16 \<longrightarrow> err (doubleRemainder v) d \<le> err (doubleRemainder v) k) \<and>
        (\<forall>k. 1 \<le> k \<and> k < d \<longrightarrow> err (doubleRemainder v) d < err (doubleRemainder v) k) \<and>
        0 \<le> numeratorFor (doubleRemainder v) d \<and>
        formatQuantity v =
          (if numeratorFor (doubleRemainder v) d = d then js ''1/1''
           else if err (doubleRemainder v) d < roundDouble (1 / 100)
           then digitsOf (nat (numeratorFor (doubleRemainder v) d)) @ js ''/'' @ digitsOf (nat d)
           else toFixed2 v) \<and>
        (numeratorFor (doubleRemainder v) d = d \<or>
         err (doubleRemainder v) d < roundDouble (1 / 100) \<longrightarrow>
           45 \<notin> set (formatQuantity v) \<and> 32 \<notin> set (formatQuantity v)) \<and>
        (numeratorFor (doubleRemainder v) d \<noteq> d \<and>
         \<not> err (doubleRemainder v) d < roundDouble (1 / 100) \<longrightarrow>
           hd (formatQuantity v) = 45) \<and>
        (\<forall>n k. 1 \<le> k \<and> k \<le> 16 \<and>
            \<bar>of_int n / of_int k - (v - of_int \<lfloor>v\<rfloor>)\<bar> \<le> 1 / 100 - 1 / 2 ^ 45 \<longrightarrow>
            numeratorFor (doubleRemainder v) d = d \<or>
            err (doubleRemainder v) d < roundDouble (1 / 100))) \<and>
     formatQuantity (- 1 / 2) = js ''1/2'' \<and> formatQuantity (- 5 / 2) = js ''1/2'' \<and>
     formatQuantity (- 1 / 4) = js ''3/4''"
proof -
  define r where "r = doubleRemainder v"
  define b where "b = foldl (fractionStep r) (0, 1, 1) [1..maxDenominator]"
  define d where "d = fst (snd b)"
  define thr where "thr = roundDouble (1 / 100)"
  have r: "0 \<le> r" "r \<le> 1 + 1 / 2 ^ 48"
    unfolding r_def by (rule doubleRemainder_range)+
  note s = search_characterised [OF r, folded b_def, folded d_def]
  have d: "1 \<le> d" "d \<le> 16" by (rule s)+
  have num: "0 \<le> numeratorFor r d"
    using r(1) d by (intro numeratorFor_nonneg) simp_all
  have least: "\<forall>k. 1 \<le> k \<and> k \<le> 16 \<longrightarrow> err r d \<le> err r k"
    using s(5) by (simp add: s(4))
  have first: "\<forall>k. 1 \<le> k \<and> k < d \<longrightarrow> err r d < err r k"
    using s(6) by (simp add: s(4))
  have thr: "0 < thr"
    by (simp add: thr_def threshold)
  have w: "\<not> 0 < \<lfloor>v\<rfloor> + 1" "\<not> 0 < \<lfloor>v\<rfloor>"
    using assms(1) by (simp_all add: floor_less_iff not_less add1_zle_eq)
  have "closestFraction v =
      (if fst b = fst (snd b)
       then Some \<lparr>whole = \<lfloor>v\<rfloor> + 1, numerator = 1, denominator = 1, error = 0\<rparr>
       else Some \<lparr>whole = \<lfloor>v\<rfloor>, numerator = fst b, denominator = fst (snd b),
                   error = snd (snd b)\<rparr>)"
    by (simp add: closestFraction_def Let_def b_def r_def doubleRemainder_def)
  then have cf: "closestFraction v =
      (if numeratorFor r d = d
       then Some \<lparr>whole = \<lfloor>v\<rfloor> + 1, numerator = 1, denominator = 1, error = 0\<rparr>
       else Some \<lparr>whole = \<lfloor>v\<rfloor>, numerator = numeratorFor r d, denominator = d,
                   error = err r d\<rparr>)"
    unfolding d_def [symmetric] s(3) s(4) .
  have one: "intToString 1 @ js ''/'' @ intToString 1 = js ''1/1''"
    by (simp add: digit_simps)
  have f: "formatQuantity v =
      (if numeratorFor r d = d then js ''1/1''
       else if err r d < thr
       then digitsOf (nat (numeratorFor r d)) @ js ''/'' @ digitsOf (nat d)
       else toFixed2 v)"
    using assms(2) w thr num d
    by (simp add: formatQuantity_def cf thr_def [symmetric] one)
       (simp add: intToString_def)
  have chars: "45 \<notin> set (digitsOf a @ js ''/'' @ digitsOf c)"
    "32 \<notin> set (digitsOf a @ js ''/'' @ digitsOf c)" for a c
    using digitsOf_digits [of 45 a] digitsOf_digits [of 45 c]
      digitsOf_digits [of 32 a] digitsOf_digits [of 32 c]
    by (auto simp: js_simps)
  have plain: "numeratorFor r d = d \<or> err r d < thr \<longrightarrow>
      45 \<notin> set (formatQuantity v) \<and> 32 \<notin> set (formatQuantity v)"
    using chars by (auto simp: f js_simps)
  have "hd (toFixed2 v) = 45"
    using assms(1) by (simp add: toFixed2_def Let_def)
  then have minus: "numeratorFor r d \<noteq> d \<and> \<not> err r d < thr \<longrightarrow> hd (formatQuantity v) = 45"
    by (simp add: f)
  have margin: "\<forall>n k. 1 \<le> k \<and> k \<le> 16 \<and>
      \<bar>of_int n / of_int k - (v - of_int \<lfloor>v\<rfloor>)\<bar> \<le> 1 / 100 - 1 / 2 ^ 45 \<longrightarrow>
      numeratorFor r d = d \<or> err r d < thr"
  proof (intro allI impI)
    fix n k
    assume a: "1 \<le> k \<and> k \<le> 16 \<and>
      \<bar>of_int n / of_int k - (v - of_int \<lfloor>v\<rfloor>)\<bar> \<le> 1 / 100 - 1 / 2 ^ 45"
    then have k: "1 \<le> k" "k \<le> 16" by simp_all
    have "err r d \<le> err r k"
      using least k by blast
    also have "err r k < thr"
      unfolding r_def doubleRemainder_def thr_def
      using remainder_range [of v] k a by (intro err_margin [of _ _ n]) simp_all
    finally show "numeratorFor r d = d \<or> err r d < thr"
      by simp
  qed
  from d least first num f plain minus margin
  have "\<exists>d. 1 \<le> d \<and> d \<le> 16 \<and>
        (\<forall>k. 1 \<le> k \<and> k \<le> 16 \<longrightarrow> err r d \<le> err r k) \<and>
        (\<forall>k. 1 \<le> k \<and> k < d \<longrightarrow> err r d < err r k) \<and>
        0 \<le> numeratorFor r d \<and>
        formatQuantity v =
          (if numeratorFor r d = d then js ''1/1''
           else if err r d < thr
           then digitsOf (nat (numeratorFor r d)) @ js ''/'' @ digitsOf (nat d)
           else toFixed2 v) \<and>
        (numeratorFor r d = d \<or> err r d < thr \<longrightarrow>
           45 \<notin> set (formatQuantity v) \<and> 32 \<notin> set (formatQuantity v)) \<and>
        (numeratorFor r d \<noteq> d \<and> \<not> err r d < thr \<longrightarrow> hd (formatQuantity v) = 45) \<and>
        (\<forall>n k. 1 \<le> k \<and> k \<le> 16 \<and>
            \<bar>of_int n / of_int k - (v - of_int \<lfloor>v\<rfloor>)\<bar> \<le> 1 / 100 - 1 / 2 ^ 45 \<longrightarrow>
            numeratorFor r d = d \<or> err r d < thr)"
    by (intro exI [of _ d] conjI)
  then show ?thesis
    unfolding r_def thr_def
    using format_minus_half format_minus_five_halves format_minus_quarter by (intro conjI)
qed

lemma remainder_minus_quarter: "doubleRemainder (- 1 / 4) = 3 / 4"
  by (simp add: doubleRemainder_def floor_simps round_three_quarters)

lemma err_three_quarters:
  "err (3 / 4) 1 = 1 / 4" "err (3 / 4) 2 = 1 / 4"
  "err (3 / 4) 3 = 750599937895083 / 9007199254740992" "err (3 / 4) 4 = 0"
  "numeratorFor (3 / 4) 4 = 3"
  by (simp_all add: err_def numeratorFor_def mathRound_def double_simps)

theorem negative_fraction_witness:
  "(- 1 / 4 :: rat) < 0 \<and> \<not> isWhole (- 1 / 4) \<and> (1::int) \<le> 4 \<and> (4::int) \<le> 16 \<and>
   \<bar>of_int 3 / of_int 4 - (- 1 / 4 - of_int \<lfloor>- 1 / 4 :: rat\<rfloor>)\<bar> \<le> (1 / 100 - 1 / 2 ^ 45 :: rat) \<and>
   err (doubleRemainder (- 1 / 4)) 4 < roundDouble (1 / 100) \<and>
   formatQuantity (- 1 / 4) = js ''3/4'' \<and>
   45 \<notin> set (formatQuantity (- 1 / 4)) \<and> 32 \<notin> set (formatQuantity (- 1 / 4))"
proof -
  have h: "(- 1 / 4 :: rat) < 0" "\<not> isWhole (- 1 / 4)"
    by (simp_all add: isWhole_def floor_simps del: of_int_floor_cancel)
  have m: "(1::int) \<le> 4 \<and> (4::int) \<le> 16 \<and>
    \<bar>of_int 3 / of_int 4 - (- 1 / 4 - of_int \<lfloor>- 1 / 4 :: rat\<rfloor>)\<bar> \<le> (1 / 100 - 1 / 2 ^ 45 :: rat)"
    by (simp add: floor_simps)
  from negative_fraction [OF h, THEN conjunct1, unfolded remainder_minus_quarter] obtain d where
    d: "1 \<le> d" "d \<le> 16"
    and least: "\<forall>k. 1 \<le> k \<and> k \<le> 16 \<longrightarrow> err (3 / 4) d \<le> err (3 / 4) k"
    and first: "\<forall>k. 1 \<le> k \<and> k < d \<longrightarrow> err (3 / 4) d < err (3 / 4) k"
    and f: "formatQuantity (- 1 / 4) =
      (if numeratorFor (3 / 4) d = d then js ''1/1''
       else if err (3 / 4) d < roundDouble (1 / 100)
       then digitsOf (nat (numeratorFor (3 / 4) d)) @ js ''/'' @ digitsOf (nat d)
       else toFixed2 (- 1 / 4))"
    and plain: "numeratorFor (3 / 4) d = d \<or> err (3 / 4) d < roundDouble (1 / 100) \<longrightarrow>
      45 \<notin> set (formatQuantity (- 1 / 4)) \<and> 32 \<notin> set (formatQuantity (- 1 / 4))"
    and margin: "\<forall>n k. 1 \<le> k \<and> k \<le> 16 \<and>
      \<bar>of_int n / of_int k - (- 1 / 4 - of_int \<lfloor>- 1 / 4 :: rat\<rfloor>)\<bar> \<le> (1 / 100 - 1 / 2 ^ 45 :: rat) \<longrightarrow>
      numeratorFor (3 / 4) d = d \<or> err (3 / 4) d < roundDouble (1 / 100)"
    by (elim exE conjE) (rule that)
  from least have "err (3 / 4) d \<le> err (3 / 4) 4"
    by simp
  moreover have "0 \<le> err (3 / 4) d"
    by (simp add: err_def)
  ultimately have zero: "err (3 / 4) d = 0"
    by (simp add: err_three_quarters)
  have "\<not> 4 < d"
  proof
    assume "4 < d"
    with first have "err (3 / 4) d < err (3 / 4) 4"
      by simp
    with zero show False
      by (simp add: err_three_quarters)
  qed
  with d have "d = 1 \<or> d = 2 \<or> d = 3 \<or> d = 4"
    by arith
  with zero have d4: "d = 4"
    by (auto simp: err_three_quarters)
  from margin m have "numeratorFor (3 / 4) d = d \<or> err (3 / 4) d < roundDouble (1 / 100)"
    by blast
  then have small: "err (3 / 4) 4 < roundDouble (1 / 100)"
    by (simp add: d4 err_three_quarters)
  from f have "formatQuantity (- 1 / 4) = js ''3/4''"
    by (simp add: d4 err_three_quarters threshold digit_simps)
  moreover from plain small have
    "45 \<notin> set (formatQuantity (- 1 / 4)) \<and> 32 \<notin> set (formatQuantity (- 1 / 4))"
    by (simp add: d4)
  ultimately show ?thesis
    using h m small unfolding remainder_minus_quarter by blast
qed

section \<open>Reading back a formatted whole number\<close>

lemmas float_simps =
  parseFloat_def scanFloat_def scanUnsigned_def scanExponent_def trimStart_def
  digitsValue_def pow10_def isDigit_def isSpace_def Let_def

lemma digitsOf_nonempty: "digitsOf n \<noteq> []"
  by (subst digitsOf.simps) simp

lemma digitsOf_isDigit: "c \<in> set (digitsOf n) \<Longrightarrow> isDigit c"
  using digitsOf_digits [of c n] by (simp add: isDigit_def)

lemma digitsValue_snoc: "digitsValue (ds @ [c]) = 10 * digitsValue ds + (c - 48)"
  by (simp add: digitsValue_def)

lemma digitsValue_digitsOf: "digitsValue (digitsOf n) = n"
proof (induction n rule: digitsOf.induct)
  case (1 n)
  show ?case
  proof (cases "n < 10")
    case True
    then show ?thesis by (simp add: digitsOf_small digitsValue_def)
  next
    case False
    with "1.IH" show ?thesis
      by (simp add: digitsOf_big digitsValue_snoc)
  qed
qed

lemma digit_not_space: "isDigit c \<Longrightarrow> \<not> isSpace c"
  by (auto simp: isDigit_def isSpace_def)

lemma parseFloat_digits:
  assumes "ds \<noteq> []" "\<forall>c \<in> set ds. isDigit c"
  shows "parseFloat ds = Some (of_nat (digitsValue ds))"
proof -
  from assms obtain c r where ds: "ds = c # r" by (cases ds) auto
  with assms(2) have c: "isDigit c" by simp
  then have sp: "\<not> isSpace c" by (rule digit_not_space)
  from c have sign: "c \<noteq> 45" "c \<noteq> 43" by (auto simp: isDigit_def)
  have tw: "takeWhile isDigit ds = ds" "dropWhile isDigit ds = []"
    using assms(2) by simp_all
  have "scanUnsigned ds = Some (of_nat (digitsValue ds), [])"
    using assms(1) by (simp add: scanUnsigned_def tw scanExponent_def pow10_def)
  then have "scanFloat ds = Some (of_nat (digitsValue ds), [])"
    using sign by (simp add: scanFloat_def ds)
  moreover have "trimStart ds = ds"
    using sp by (simp add: trimStart_def ds)
  ultimately show ?thesis
    by (simp add: parseFloat_def)
qed

lemma splitWs_nospace: "\<forall>c \<in> set s. \<not> isSpace c \<Longrightarrow> splitWs s = [s]"
  by (induction s) simp_all

lemma parseQuantity_digits: "parseQuantity (digitsOf m) = (if 0 < m then Some (of_nat m) else None)"
proof -
  have d: "\<forall>c \<in> set (digitsOf m). isDigit c"
    by (simp add: digitsOf_isDigit)
  then have "\<forall>c \<in> set (digitsOf m). \<not> isSpace c"
    by (simp add: digit_not_space)
  then have s: "splitWs (digitsOf m) = [digitsOf m]"
    by (rule splitWs_nospace)
  have slash: "47 \<notin> set (digitsOf m)"
    using digitsOf_digits [of 47 m] by auto
  have "parseFloat (digitsOf m) = Some (of_nat m)"
    using parseFloat_digits [OF digitsOf_nonempty d] by (simp add: digitsValue_digitsOf)
  then show ?thesis
    by (simp add: parseQuantity_def s slash)
qed

lemma parseQuantity_minus_digits: "parseQuantity (45 # digitsOf m) = None"
proof -
  define t where "t = 45 # digitsOf m"
  have d: "\<forall>c \<in> set (digitsOf m). isDigit c"
    by (simp add: digitsOf_isDigit)
  then have "\<forall>c \<in> set t. \<not> isSpace c"
    by (simp add: t_def digit_not_space) (simp add: isSpace_def)
  then have s: "splitWs t = [t]"
    by (rule splitWs_nospace)
  have slash: "47 \<notin> set t"
    using digitsOf_digits [of 47 m] by (auto simp: t_def)
  have tw: "takeWhile isDigit (digitsOf m) = digitsOf m" "dropWhile isDigit (digitsOf m) = []"
    using d by simp_all
  have "scanUnsigned (digitsOf m) = Some (of_nat (digitsValue (digitsOf m)), [])"
    using digitsOf_nonempty [of m] by (simp add: scanUnsigned_def tw scanExponent_def pow10_def)
  then have "scanFloat t = Some (- of_nat m, [])"
    by (simp add: t_def scanFloat_def digitsValue_digitsOf)
  moreover have "trimStart t = t"
    by (simp add: t_def trimStart_def isSpace_def)
  ultimately have "parseFloat t = Some (- of_nat m)"
    by (simp add: parseFloat_def)
  then have "parseQuantity t = None"
    by (simp add: parseQuantity_def s slash)
  then show ?thesis
    by (simp only: t_def)
qed

text \<open>
  C9, as stated, fails at the whole numbers that are not positive: \<open>parseQuantity\<close> rejects
  a total that is not strictly positive.
\<close>

theorem parse_format_zero_counterexample:
  "parseQuantity (formatQuantity 0) = None \<and> parseQuantity (formatQuantity (- 3)) = None"
proof -
  have "formatQuantity 0 = digitsOf 0"
    by (simp add: formatQuantity_def isWhole_def intToString_def)
  moreover have "formatQuantity (- 3) = js ''-3''"
    by (simp add: formatQuantity_def isWhole_def intToString_def digitsOf_small js_simps)
  moreover have "parseQuantity (js ''-3'') = None"
    by (simp add: parseQuantity_def js_simps float_simps)
  ultimately show ?thesis
    by (simp add: parseQuantity_digits)
qed

text \<open>
  C9, amended: for every positive whole number \<open>n\<close>,
  \<open>parseQuantity (formatQuantity n) = n\<close>; for zero and for a negative whole number the
  result is absence.
\<close>

theorem parse_format_whole:
  "parseQuantity (formatQuantity (of_int n)) = (if 0 < n then Some (of_int n) else None)"
proof -
  have f: "formatQuantity (of_int n) = intToString n"
    by (simp add: formatQuantity_def isWhole_def)
  show ?thesis
  proof (cases "n < 0")
    case True
    then show ?thesis
      by (simp add: f intToString_def parseQuantity_minus_digits)
  next
    case False
    then show ?thesis
      by (simp add: f intToString_def parseQuantity_digits)
  qed
qed

theorem parse_format_whole_witness:
  "parseQuantity (formatQuantity (of_int 12)) = Some (of_int 12) \<and>
   parseQuantity (formatQuantity (of_int (- 3))) = None"
  using parse_format_whole [of 12] parse_format_whole [of "- 3"] by simp

section \<open>When a quantity is rejected\<close>

lemma sumParts_step:
  "sumParts (p # ps) tot = (if badPart p then None else sumParts ps (tot + contribution p))"
  by (auto simp: badPart_def contribution_def numerOf_def denomOf_def Let_def
      split: list.splits option.splits)

lemma sumParts_spec:
  "sumParts parts tot =
     (if list_ex badPart parts then None else Some (tot + sum_list (map contribution parts)))"
proof (induction parts arbitrary: tot)
  case Nil
  then show ?case by simp
next
  case (Cons p ps)
  then show ?case
    by (simp add: sumParts_step add.assoc del: sumParts.simps)
qed

text \<open>
  C4, as stated, fails for a part that begins with a number and goes on with other text:
  \<open>parseFloat\<close> reads the leading number and ignores the rest, so the part is accepted
  although it is not a number.
\<close>

theorem trailing_text_counterexample:
  "splitWs (js ''1.2.3'') = [js ''1.2.3''] \<and> \<not> isNumber (js ''1.2.3'') \<and>
   parseQuantity (js ''1.2.3'') = Some (6 / 5) \<and>
   splitWs (js ''2x'') = [js ''2x''] \<and> \<not> isNumber (js ''2x'') \<and>
   parseQuantity (js ''2x'') = Some 2"
  by (simp add: parseQuantity_def isNumber_def js_simps float_simps)


text \<open>
  C4, amended: \<open>parseQuantity\<close> returns absence if a part separated by white space has no
  number at its head (for a part with a slash: if its numerator or its denominator is
  empty or has no number at its head), or if the denominator of a fraction part is zero,
  or if the total is not strictly positive; otherwise it returns the sum of the parts,
  a part \<open>a/b\<close> contributing the leading number of \<open>a\<close> divided by the leading number of
  \<open>b\<close>, and any other part its leading number.
\<close>

theorem parseQuantity_spec:
  "parseQuantity s =
     (if list_ex badPart (splitWs s) then None
      else if 0 < sum_list (map contribution (splitWs s))
           then Some (sum_list (map contribution (splitWs s))) else None)"
  by (simp add: parseQuantity_def sumParts_spec)

theorem parseQuantity_spec_witness:
  "\<not> list_ex badPart (splitWs (js ''2 1/4'')) \<and>
   sum_list (map contribution (splitWs (js ''2 1/4''))) = 9 / 4 \<and>
   parseQuantity (js ''2 1/4'') = Some (9 / 4) \<and>
   list_ex badPart (splitWs (js ''1/0'')) \<and> parseQuantity (js ''1/0'') = None"
proof -
  have a: "\<not> list_ex badPart (splitWs (js ''2 1/4''))"
    "sum_list (map contribution (splitWs (js ''2 1/4''))) = 9 / 4"
    by (simp_all add: badPart_def contribution_def numerOf_def denomOf_def js_simps float_simps)
  have b: "list_ex badPart (splitWs (js ''1/0''))"
    by (simp add: badPart_def numerOf_def denomOf_def js_simps float_simps)
  from parseQuantity_spec [of "js ''2 1/4''"] parseQuantity_spec [of "js ''1/0''"] a b
  show ?thesis
    by simp
qed

section \<open>Two ingredient lines\<close>

lemmas char_simps = isSpace_def isDigit_def isLetter_def isLineTerminator_def

lemmas re_simps = matchStart_def search_def char_simps

lemma pq_mixed: "parseQuantity (js ''2 1/4'') = Some (9 / 4)"
  by (simp add: parseQuantity_def js_simps float_simps)

lemma pq_two: "parseQuantity (js ''2'') = Some 2"
  by (simp add: parseQuantity_def js_simps float_simps)

lemma flour_match:
  "matchStart quantityRe (js ''2 1/4 cups all-purpose flour'') =
     Some [(3, js ''all-purpose flour''), (2, js ''cups''), (1, js ''2 1/4'')]"
  by (simp add: quantityRe_def js_simps re_simps)

lemma eggs_match:
  "matchStart quantityRe (js ''2 eggs'') = Some [(2, js ''eggs''), (1, js ''2'')]"
  by (simp add: quantityRe_def js_simps re_simps)

lemma norm_cups: "normalizeUnit (js ''cups'') = Some (js ''cup'')"
  by (simp add: unit_simps)

lemma norm_eggs: "normalizeUnit (js ''eggs'') = Some (js ''eggs'')"
  by (simp add: unit_simps)

lemma type_cup: "getUnitType (js ''cup'') = volume"
  by (simp add: getUnitType_def UNIT_CONVERSIONS_def truthyNum_def js_simps)

lemma type_eggs: "getUnitType (js ''eggs'') = count"
  by (simp add: getUnitType_def UNIT_CONVERSIONS_def truthyNum_def js_simps)

lemma flour_line:
  "parseIngredientLine (js ''2 1/4 cups all-purpose flour'') =
     Some \<lparr>original = js ''2 1/4 cups all-purpose flour'', quantity = 9 / 4, unit = js ''cup'',
           unitType = volume, ingredient = js ''all-purpose flour'', ingredientNotes = None\<rparr>"
proof -
  have t: "trim (js ''2 1/4 cups all-purpose flour'') = js ''2 1/4 cups all-purpose flour''"
    by (simp add: trim_def js_simps isSpace_def)
  have b: "rmatch bulletRe (js ''2 1/4 cups all-purpose flour'') [] (\<lambda>s' cap. Some s') = None"
    by (simp add: bulletRe_def js_simps)
  have n: "search notesRe (js ''2 1/4 cups all-purpose flour'') = None"
    by (simp add: notesRe_def js_simps re_simps)
  have u: "trim (js ''cups'') = js ''cups''" "trim (js ''all-purpose flour'') = js ''all-purpose flour''"
    "js ''all-purpose flour'' \<noteq> []"
    by (simp_all add: trim_def js_simps isSpace_def)
  show ?thesis
    by (simp add: parseIngredientLine_def Let_def t b n flour_match u pq_mixed norm_cups type_cup truthyStr_def)
       (simp add: js_simps)
qed

lemma eggs_line:
  "parseIngredientLine (js ''2 eggs'') =
     Some \<lparr>original = js ''2 eggs'', quantity = 2, unit = js ''eggs'',
           unitType = count, ingredient = js ''eggs'', ingredientNotes = None\<rparr>"
proof -
  have t: "trim (js ''2 eggs'') = js ''2 eggs''"
    by (simp add: trim_def js_simps isSpace_def)
  have b: "rmatch bulletRe (js ''2 eggs'') [] (\<lambda>s' cap. Some s') = None"
    by (simp add: bulletRe_def js_simps)
  have n: "search notesRe (js ''2 eggs'') = None"
    by (simp add: notesRe_def js_simps re_simps)
  have u: "trim (js ''eggs'') = js ''eggs''"
    by (simp_all add: trim_def js_simps isSpace_def)
  show ?thesis
    by (simp add: parseIngredientLine_def Let_def t b n eggs_match u pq_two norm_eggs type_eggs truthyStr_def)
       (simp add: js_simps)
qed

text \<open>
  C6: \<open>2 1/4 cups all-purpose flour\<close> parses to the quantity 2.25, the unit \<open>cup\<close>, the
  ingredient \<open>all-purpose flour\<close> and no notes; \<open>2 eggs\<close> parses to the quantity 2, the
  unit \<open>eggs\<close>, of the category count, and the ingredient \<open>eggs\<close>.
\<close>

theorem ingredient_examples:
  "parseIngredientLine (js ''2 1/4 cups all-purpose flour'') =
     Some \<lparr>original = js ''2 1/4 cups all-purpose flour'', quantity = 9 / 4, unit = js ''cup'',
           unitType = volume, ingredient = js ''all-purpose flour'', ingredientNotes = None\<rparr> \<and>
   parseIngredientLine (js ''2 eggs'') =
     Some \<lparr>original = js ''2 eggs'', quantity = 2, unit = js ''eggs'',
           unitType = count, ingredient = js ''eggs'', ingredientNotes = None\<rparr>"
  by (simp only: flour_line eggs_line)

section \<open>Scaling\<close>




section \<open>Which lines are instruction steps\<close>

text \<open>A greedy repetition succeeds exactly when its continuation succeeds after some
  prefix of the longest run.\<close>

lemma starG_success:
  "(starG p s k \<noteq> None) = (\<exists>n \<le> length (takeWhile p s). k (drop n s) \<noteq> None)"
proof (induction s)
  case Nil
  then show ?case by simp
next
  case (Cons c cs)
  show ?case
  proof (cases "p c")
    case False
    then show ?thesis by simp
  next
    case True
    have "(starG p (c # cs) k \<noteq> None) = (starG p cs k \<noteq> None \<or> k (c # cs) \<noteq> None)"
      using True by (simp split: option.splits)
    also have "\<dots> = ((\<exists>n \<le> length (takeWhile p cs). k (drop n cs) \<noteq> None) \<or> k (c # cs) \<noteq> None)"
      by (simp only: Cons.IH)
    also have "\<dots> = (\<exists>n \<le> length (takeWhile p (c # cs)). k (drop n (c # cs)) \<noteq> None)"
    proof
      assume "(\<exists>n \<le> length (takeWhile p cs). k (drop n cs) \<noteq> None) \<or> k (c # cs) \<noteq> None"
      then show "\<exists>n \<le> length (takeWhile p (c # cs)). k (drop n (c # cs)) \<noteq> None"
      proof
        assume "\<exists>n \<le> length (takeWhile p cs). k (drop n cs) \<noteq> None"
        then obtain n where "n \<le> length (takeWhile p cs)" "k (drop n cs) \<noteq> None" by blast
        then show ?thesis using True by (intro exI [of _ "Suc n"]) simp
      next
        assume "k (c # cs) \<noteq> None"
        then show ?thesis by (intro exI [of _ 0]) simp
      qed
    next
      assume "\<exists>n \<le> length (takeWhile p (c # cs)). k (drop n (c # cs)) \<noteq> None"
      then obtain n where n: "n \<le> length (takeWhile p (c # cs))" "k (drop n (c # cs)) \<noteq> None"
        by blast
      show "(\<exists>n \<le> length (takeWhile p cs). k (drop n cs) \<noteq> None) \<or> k (c # cs) \<noteq> None"
      proof (cases n)
        case 0
        with n show ?thesis by simp
      next
        case (Suc m)
        with n True show ?thesis by auto
      qed
    qed
    finally show ?thesis .
  qed
qed

lemma drop_all_iff: "(\<exists>n \<le> length (takeWhile p s). drop n s = []) = (\<forall>c \<in> set s. p c)"
proof
  assume "\<exists>n \<le> length (takeWhile p s). drop n s = []"
  then obtain n where "n \<le> length (takeWhile p s)" "length s \<le> n" by auto
  then have l: "length s \<le> length (takeWhile p s)" by linarith
  have "length (takeWhile p s) + length (dropWhile p s) = length s"
    by (induction s) auto
  with l have "length (dropWhile p s) = 0" by linarith
  then have "dropWhile p s = []" by (simp only: length_0_conv)
  then show "\<forall>c \<in> set s. p c" by (simp add: dropWhile_eq_Nil_conv)
next
  assume "\<forall>c \<in> set s. p c"
  then have "takeWhile p s = s" by (simp add: takeWhile_eq_all_conv)
  then have "length s \<le> length (takeWhile p s)" by (simp only: order_refl)
  moreover have "drop (length s) s = []" by simp
  ultimately show "\<exists>n \<le> length (takeWhile p s). drop n s = []"
    by blast
qed

text \<open>The rest of a line after the white space: one or more characters of a class, to the end.\<close>

lemma to_end_success:
  "(starG p s (\<lambda>s'. if s' = [] then Some (f s') else None) \<noteq> None) = (\<forall>c \<in> set s. p c)"
proof -
  have "(\<exists>n \<le> length (takeWhile p s).
          (if drop n s = [] then Some (f (drop n s)) else None) \<noteq> None) =
        (\<exists>n \<le> length (takeWhile p s). drop n s = [])"
    by (intro ex_cong1) (auto simp del: drop_eq_Nil)
  then show ?thesis
    by (simp only: starG_success drop_all_iff)
qed

lemma tail_success:
  "(rmatch (Seq (Group i (Plus p)) End) s cap (\<lambda>s' cap. Some cap) \<noteq> None) =
     (s \<noteq> [] \<and> (\<forall>c \<in> set s. p c))"
proof (cases s)
  case Nil
  then show ?thesis by simp
next
  case (Cons c cs)
  show ?thesis
    unfolding Cons
    by (simp add: to_end_success del: not_None_eq)
qed


text \<open>White space, then the rest of the line.\<close>

lemma space_success:
  "(rmatch (Seq (Plus isSpace) (Seq (Group i (Plus q)) End)) s cap (\<lambda>s' cap. Some cap) \<noteq> None) =
     (\<exists>n. 1 \<le> n \<and> n \<le> length (takeWhile isSpace s) \<and>
          drop n s \<noteq> [] \<and> (\<forall>c \<in> set (drop n s). q c))"
proof (cases s)
  case Nil
  then show ?thesis by simp
next
  case (Cons w s3)
  show ?thesis
  proof (cases "isSpace w")
    case False
    then show ?thesis by (simp add: Cons)
  next
    case True
    have "(rmatch (Seq (Plus isSpace) (Seq (Group i (Plus q)) End)) s cap (\<lambda>s' cap. Some cap) \<noteq> None) =
          (starG isSpace s3
             (\<lambda>s'. rmatch (Seq (Group i (Plus q)) End) s' cap (\<lambda>s' cap. Some cap)) \<noteq> None)"
      using True by (simp add: Cons del: not_None_eq)
    also have "\<dots> = (\<exists>m \<le> length (takeWhile isSpace s3).
                        drop m s3 \<noteq> [] \<and> (\<forall>c \<in> set (drop m s3). q c))"
      by (simp only: starG_success tail_success)
    also have "\<dots> = (\<exists>n. 1 \<le> n \<and> n \<le> length (takeWhile isSpace s) \<and>
                          drop n s \<noteq> [] \<and> (\<forall>c \<in> set (drop n s). q c))"
    proof
      assume "\<exists>m \<le> length (takeWhile isSpace s3). drop m s3 \<noteq> [] \<and> (\<forall>c \<in> set (drop m s3). q c)"
      then obtain m where "m \<le> length (takeWhile isSpace s3)" "drop m s3 \<noteq> []"
        "\<forall>c \<in> set (drop m s3). q c" by blast
      then show "\<exists>n. 1 \<le> n \<and> n \<le> length (takeWhile isSpace s) \<and>
                   drop n s \<noteq> [] \<and> (\<forall>c \<in> set (drop n s). q c)"
        using True by (intro exI [of _ "Suc m"]) (simp add: Cons)
    next
      assume "\<exists>n. 1 \<le> n \<and> n \<le> length (takeWhile isSpace s) \<and>
                drop n s \<noteq> [] \<and> (\<forall>c \<in> set (drop n s). q c)"
      then obtain n where n: "1 \<le> n" "n \<le> length (takeWhile isSpace s)" "drop n s \<noteq> []"
        "\<forall>c \<in> set (drop n s). q c" by blast
      then obtain m where m: "n = Suc m" by (cases n) auto
      with n True show "\<exists>m \<le> length (takeWhile isSpace s3).
                          drop m s3 \<noteq> [] \<and> (\<forall>c \<in> set (drop m s3). q c)"
        by (intro exI [of _ m]) (simp add: Cons)
    qed
    finally show ?thesis .
  qed
qed

lemma dropWhile_drop: "dropWhile p s = drop (length (takeWhile p s)) s"
  by (induction s) auto

lemma space_trimmed:
  assumes "s = [] \<or> \<not> isSpace (last s)"
  shows "(\<exists>n. 1 \<le> n \<and> n \<le> length (takeWhile isSpace s) \<and>
            drop n s \<noteq> [] \<and> (\<forall>c \<in> set (drop n s). q c)) =
         (s \<noteq> [] \<and> isSpace (hd s) \<and> dropWhile isSpace s \<noteq> [] \<and>
          (\<forall>c \<in> set (dropWhile isSpace s). q c))"
proof
  assume "\<exists>n. 1 \<le> n \<and> n \<le> length (takeWhile isSpace s) \<and>
            drop n s \<noteq> [] \<and> (\<forall>c \<in> set (drop n s). q c)"
  then obtain n where n: "1 \<le> n" "n \<le> length (takeWhile isSpace s)" "drop n s \<noteq> []"
    "\<forall>c \<in> set (drop n s). q c" by blast
  from n(1,2) have tw: "takeWhile isSpace s \<noteq> []" by auto
  then have s: "s \<noteq> []" "isSpace (hd s)"
    by (cases s; simp split: if_splits)+
  with assms have "\<not> isSpace (last s)" "last s \<in> set s" by simp_all
  then have d: "dropWhile isSpace s \<noteq> []"
    by (auto simp: dropWhile_eq_Nil_conv)
  have "dropWhile isSpace s = drop (length (takeWhile isSpace s) - n) (drop n s)"
    using n(2) by (simp add: dropWhile_drop)
  then have "set (dropWhile isSpace s) \<subseteq> set (drop n s)"
    by (simp only: set_drop_subset)
  with n(4) s d show "s \<noteq> [] \<and> isSpace (hd s) \<and> dropWhile isSpace s \<noteq> [] \<and>
          (\<forall>c \<in> set (dropWhile isSpace s). q c)"
    by blast
next
  assume a: "s \<noteq> [] \<and> isSpace (hd s) \<and> dropWhile isSpace s \<noteq> [] \<and>
          (\<forall>c \<in> set (dropWhile isSpace s). q c)"
  then have "1 \<le> length (takeWhile isSpace s)"
    by (cases s) auto
  with a show "\<exists>n. 1 \<le> n \<and> n \<le> length (takeWhile isSpace s) \<and>
            drop n s \<noteq> [] \<and> (\<forall>c \<in> set (drop n s). q c)"
    by (intro exI [of _ "length (takeWhile isSpace s)"]) (simp add: dropWhile_drop)
qed

text \<open>The digits and the dot.\<close>

lemma digits_dot:
  "(\<exists>n \<le> length (takeWhile isDigit cs).
      (case drop n cs of [] \<Rightarrow> False | d # s2 \<Rightarrow> d = 46 \<and> P s2)) =
   (case dropWhile isDigit cs of [] \<Rightarrow> False | d # s2 \<Rightarrow> d = 46 \<and> P s2)"
proof
  assume "\<exists>n \<le> length (takeWhile isDigit cs).
      (case drop n cs of [] \<Rightarrow> False | d # s2 \<Rightarrow> d = 46 \<and> P s2)"
  then obtain n where n1: "n \<le> length (takeWhile isDigit cs)"
    and c: "case drop n cs of [] \<Rightarrow> False | d # s2 \<Rightarrow> d = 46 \<and> P s2"
    by blast
  from c obtain s2 where n23: "drop n cs = 46 # s2" "P s2"
    by (cases "drop n cs") auto
  note n = n1 n23
  have "\<not> n < length (takeWhile isDigit cs)"
  proof
    assume l: "n < length (takeWhile isDigit cs)"
    then have "isDigit (takeWhile isDigit cs ! n)"
      using nth_mem [OF l] set_takeWhileD by fastforce
    moreover have "takeWhile isDigit cs ! n = cs ! n"
      using l by (rule takeWhile_nth)
    moreover have "cs ! n = hd (drop n cs)"
      using l length_takeWhile_le [of isDigit cs] by (simp add: hd_drop_conv_nth)
    ultimately show False
      using n(2) by (simp add: isDigit_def)
  qed
  with n(1) have "n = length (takeWhile isDigit cs)" by simp
  with n(2,3) show "case dropWhile isDigit cs of [] \<Rightarrow> False | d # s2 \<Rightarrow> d = 46 \<and> P s2"
    by (simp add: dropWhile_drop)
next
  assume "case dropWhile isDigit cs of [] \<Rightarrow> False | d # s2 \<Rightarrow> d = 46 \<and> P s2"
  then show "\<exists>n \<le> length (takeWhile isDigit cs).
      (case drop n cs of [] \<Rightarrow> False | d # s2 \<Rightarrow> d = 46 \<and> P s2)"
    by (intro exI [of _ "length (takeWhile isDigit cs)"]) (simp add: dropWhile_drop)
qed

lemma after_dot:
  assumes "\<And>s cap. (rmatch r s cap k \<noteq> None) = P s"
  shows "((case l of [] \<Rightarrow> None | d # s2 \<Rightarrow> if d = 46 then rmatch r s2 (g d s2) k else None) \<noteq> None) =
         (case l of [] \<Rightarrow> False | d # s2 \<Rightarrow> d = 46 \<and> P s2)"
  using assms by (cases l) (simp_all del: not_None_eq)

lemma digits_success:
  assumes r: "\<And>s cap. (rmatch r s cap k \<noteq> None) = P s"
  shows "(rmatch (Seq (Group i (Plus isDigit)) (Seq (Chr (\<lambda>c. c = 46)) r)) t cap k \<noteq> None) =
     (case t of
        [] \<Rightarrow> False
      | c # cs \<Rightarrow>
          isDigit c \<and> (case dropWhile isDigit cs of [] \<Rightarrow> False | d # s2 \<Rightarrow> d = 46 \<and> P s2))"
proof (cases t)
  case Nil
  then show ?thesis by simp
next
  case (Cons c cs)
  show ?thesis
  proof (cases "isDigit c")
    case False
    then show ?thesis by (simp add: Cons)
  next
    case True
    then show ?thesis
      by (simp add: Cons starG_success after_dot [OF r] digits_dot del: not_None_eq)
  qed
qed

lemma step_success:
  "(matchStart stepRe t \<noteq> None) =
     (case t of
        [] \<Rightarrow> False
      | c # cs \<Rightarrow>
          isDigit c \<and>
          (case dropWhile isDigit cs of
             [] \<Rightarrow> False
           | d # s2 \<Rightarrow>
               d = 46 \<and>
               (\<exists>n. 1 \<le> n \<and> n \<le> length (takeWhile isSpace s2) \<and> drop n s2 \<noteq> [] \<and>
                    (\<forall>x \<in> set (drop n s2). \<not> isLineTerminator x))))"
  unfolding matchStart_def stepRe_def
  by (rule digits_success) (rule space_success)


lemma trim_last: "trim s = [] \<or> \<not> isSpace (last (trim s))"
proof (cases "dropWhile isSpace (rev (dropWhile isSpace s)) = []")
  case True
  then show ?thesis by (simp add: trim_def)
next
  case False
  then have "\<not> isSpace (hd (dropWhile isSpace (rev (dropWhile isSpace s))))"
    by (rule hd_dropWhile)
  with False show ?thesis
    by (simp add: trim_def last_rev)
qed

lemma stepLine_cases:
  "stepLine t =
     (case t of
        [] \<Rightarrow> False
      | c # cs \<Rightarrow>
          isDigit c \<and>
          (case dropWhile isDigit cs of
             [] \<Rightarrow> False
           | d # s2 \<Rightarrow>
               d = 46 \<and> s2 \<noteq> [] \<and> isSpace (hd s2) \<and> dropWhile isSpace s2 \<noteq> [] \<and>
               (\<forall>x \<in> set (dropWhile isSpace s2). \<not> isLineTerminator x)))"
proof (cases t)
  case Nil
  then show ?thesis by (simp add: stepLine_def)
next
  case (Cons c cs)
  show ?thesis
  proof (cases "isDigit c")
    case False
    then show ?thesis by (simp add: stepLine_def Cons)
  next
    case True
    then show ?thesis
      by (cases "dropWhile isDigit cs")
         (simp_all add: stepLine_def Cons Let_def del: dropWhile_eq_Nil_conv)
  qed
qed

lemma step_trimmed:
  assumes "t = [] \<or> \<not> isSpace (last t)"
  shows "(matchStart stepRe t \<noteq> None) = stepLine t"
proof (cases t)
  case Nil
  then show ?thesis by (simp add: step_success stepLine_cases del: not_None_eq)
next
  case (Cons c cs)
  show ?thesis
  proof (cases "dropWhile isDigit cs")
    case Nil
    then show ?thesis
      by (simp add: step_success stepLine_cases Cons del: not_None_eq dropWhile_eq_Nil_conv)
  next
    case (Cons d s2)
    have "cs = takeWhile isDigit cs @ d # s2"
      using Cons takeWhile_dropWhile_id [of isDigit cs] by simp
    then have t: "t = (c # takeWhile isDigit cs @ [d]) @ s2"
      using \<open>t = c # cs\<close> by simp
    have "s2 = [] \<or> \<not> isSpace (last s2)"
    proof (cases "s2 = []")
      case False
      then have "last t = last s2"
        by (subst t) (rule last_appendR)
      with assms \<open>t = c # cs\<close> show ?thesis by simp
    qed simp
    from space_trimmed [OF this] show ?thesis
      by (simp add: step_success stepLine_cases \<open>t = c # cs\<close> Cons del: not_None_eq)
  qed
qed

lemma step_first_digit:
  assumes "matchStart stepRe t \<noteq> None"
  shows "t \<noteq> [] \<and> \<not> startsWith t (js ''#'')"
proof -
  from assms have "case t of [] \<Rightarrow> False | c # cs \<Rightarrow> isDigit c"
    by (cases t) (simp_all add: step_success del: not_None_eq)
  then obtain c cs where "t = c # cs" "isDigit c"
    by (cases t) auto
  then show ?thesis
    by (auto simp: startsWith_def js_simps isDigit_def)
qed

lemma instruction_iff: "(instructionOfLine line \<noteq> None) = stepLine (trim line)"
proof -
  have "(instructionOfLine line \<noteq> None) =
          (trim line \<noteq> [] \<and> \<not> startsWith (trim line) (js ''#'') \<and>
           matchStart stepRe (trim line) \<noteq> None)"
    by (simp add: instructionOfLine_def Let_def del: not_None_eq split: option.splits)
  also have "\<dots> = (matchStart stepRe (trim line) \<noteq> None)"
    using step_first_digit [of "trim line"] by blast
  also have "\<dots> = stepLine (trim line)"
    by (rule step_trimmed) (rule trim_last)
  finally show ?thesis .
qed

lemma collect_lines:
  "foldl (\<lambda>instructions line.
            case f line of None \<Rightarrow> instructions | Some i \<Rightarrow> instructions @ [i]) acc ls =
   acc @ concat (map (\<lambda>line. case f line of None \<Rightarrow> [] | Some i \<Rightarrow> [i]) ls)"
  by (induction ls arbitrary: acc) (simp_all split: option.splits)

lemmas int_simps = parseInt_def trimStart_def digitsValue_def isDigit_def isSpace_def Let_def

lemma preheat_line:
  "instructionOfLine preheatLine =
     Some \<lparr>stepNumber = Some 1, instructionText = preheatText,
           temperature = Some \<lparr>val = Some 350, unitWord = js ''F''\<rparr>,
           time = Some \<lparr>val = Some 10, unitWord = js ''minute''\<rparr>\<rparr>"
proof -
  have t: "trim preheatLine = preheatLine"
    by (simp add: preheatLine_def trim_def js_simps isSpace_def)
  have h: "preheatLine \<noteq> []" "\<not> startsWith preheatLine (js ''#'')"
    by (simp_all add: preheatLine_def startsWith_def js_simps)
  have m: "matchStart stepRe preheatLine = Some [(2, preheatText), (1, js ''1'')]"
    by (simp add: preheatLine_def preheatText_def stepRe_def js_simps re_simps)
  have tm: "search tempRe preheatText = Some (16, [(2, js ''F''), (1, js ''350'')])"
    by (simp add: preheatText_def tempRe_def js_simps re_simps sameLetter_def upperChar_def)
  have ti: "search timeRe preheatText = Some (26, [(2, js ''minute''), (1, js ''10'')])"
    by (simp add: preheatText_def timeRe_def word_def js_simps re_simps sameLetter_def
        upperChar_def)
  have p: "parseInt (js ''1'') = Some 1" "parseInt (js ''350'') = Some 350"
    "parseInt (js ''10'') = Some 10"
    by (simp_all add: js_simps int_simps)
  have c: "toUpperCase (js ''F'') = js ''F''" "toLowerCase (js ''minute'') = js ''minute''"
    by (simp_all add: toUpperCase_def toLowerCase_def upperChar_def lowerChar_def js_simps)
  show ?thesis
    by (simp add: instructionOfLine_def Let_def t h m tm ti capOr_def p c)
qed


lemma splitOn_single: "c \<notin> set s \<Longrightarrow> splitOn c s = [s]"
  by (induction s) auto

lemma splitOn_nonempty: "splitOn c s \<noteq> []"
  by (cases s) (simp_all split: list.splits)

lemma splitOn_lines: "l \<in> set (splitOn c s) \<Longrightarrow> c \<notin> set l"
proof (induction s arbitrary: l)
  case Nil
  then show ?case by simp
next
  case (Cons x xs)
  show ?case
  proof (cases "x = c")
    case True
    with Cons show ?thesis by auto
  next
    case False
    obtain p ps where ps: "splitOn c xs = p # ps"
      using splitOn_nonempty [of c xs] by (cases "splitOn c xs") auto
    with Cons.prems False have "l = x # p \<or> l \<in> set ps"
      by simp
    with Cons.IH [of p] Cons.IH [of l] ps False show ?thesis
      by auto
  qed
qed

lemma one_line:
  assumes "10 \<notin> set line"
  shows "parseInstructions line = (case instructionOfLine line of None \<Rightarrow> [] | Some i \<Rightarrow> [i])"
  using assms by (simp add: parseInstructions_def splitOn_single split: option.splits)

lemma per_line:
  "parseInstructions text_block = concat (map parseInstructions (splitOn 10 text_block))"
proof -
  have m: "map parseInstructions (splitOn 10 text_block) =
        map (\<lambda>line. case instructionOfLine line of None \<Rightarrow> [] | Some i \<Rightarrow> [i])
          (splitOn 10 text_block)"
    by (rule map_cong [OF refl]) (simp add: one_line splitOn_lines)
  have "parseInstructions text_block =
        concat (map (\<lambda>line. case instructionOfLine line of None \<Rightarrow> [] | Some i \<Rightarrow> [i])
          (splitOn 10 text_block))"
    by (simp add: parseInstructions_def collect_lines)
  then show ?thesis
    by (simp only: m)
qed

text \<open>
  C7, as stated, fails in the direction from the pattern to the record: a line with a
  leading \<open><integer>. \<close> and nothing after it, or with a carriage return in its text,
  yields no record, because the pattern of the code asks for a remainder without line
  terminators up to the end of the line.
\<close>

theorem empty_step_counterexample:
  "leadingStepPattern (js ''1. '') \<and> trim (js ''1. '') \<noteq> [] \<and>
   \<not> startsWith (trim (js ''1. '')) (js ''#'') \<and> parseInstructions (js ''1. '') = [] \<and>
   leadingStepPattern (trim (js ''1. a'' @ [13] @ js ''b'')) \<and>
   \<not> startsWith (trim (js ''1. a'' @ [13] @ js ''b'')) (js ''#'') \<and>
   parseInstructions (js ''1. a'' @ [13] @ js ''b'') = []"
  by (simp add: leadingStepPattern_def startsWith_def parseInstructions_def instructionOfLine_def
      trim_def stepRe_def js_simps re_simps)

text \<open>
  C7, amended: the records of a text are the records of its lines, in order; a line
  yields at most one record, and it yields one if and only if the trimmed line consists
  of digits, a dot, white space, and a remainder that is not empty and has no line
  terminator (a blank line and a heading never do); the example line yields exactly one
  record, with step number 1, temperature 350 \<open>F\<close> and time 10 \<open>minute\<close>.
\<close>

theorem step_lines:
  "parseInstructions text_block = concat (map parseInstructions (splitOn 10 text_block)) \<and>
   (10 \<notin> set line \<longrightarrow>
      length (parseInstructions line) \<le> 1 \<and>
      (parseInstructions line \<noteq> []) = stepLine (trim line)) \<and>
   parseInstructions preheatLine =
     [\<lparr>stepNumber = Some 1, instructionText = preheatText,
       temperature = Some \<lparr>val = Some 350, unitWord = js ''F''\<rparr>,
       time = Some \<lparr>val = Some 10, unitWord = js ''minute''\<rparr>\<rparr>]"
proof -
  have "10 \<notin> set preheatLine"
    by (simp add: preheatLine_def js_simps)
  then have "parseInstructions preheatLine =
     [\<lparr>stepNumber = Some 1, instructionText = preheatText,
       temperature = Some \<lparr>val = Some 350, unitWord = js ''F''\<rparr>,
       time = Some \<lparr>val = Some 10, unitWord = js ''minute''\<rparr>\<rparr>]"
    by (simp add: one_line preheat_line)
  moreover have "length (parseInstructions line) \<le> 1 \<and>
      (parseInstructions line \<noteq> []) = stepLine (trim line)" if "10 \<notin> set line"
    using that instruction_iff [of line]
    by (cases "instructionOfLine line") (simp_all add: one_line)
  ultimately show ?thesis
    using per_line by blast
qed

theorem step_lines_witness:
  "10 \<notin> set preheatLine \<and> length (parseInstructions preheatLine) \<le> 1 \<and>
   parseInstructions preheatLine \<noteq> [] \<and> stepLine (trim preheatLine)"
proof -
  have n: "10 \<notin> set preheatLine"
    by (simp add: preheatLine_def js_simps)
  note s = step_lines [of preheatLine preheatLine]
  from s [THEN conjunct2, THEN conjunct1] n
  have a: "length (parseInstructions preheatLine) \<le> 1"
    "(parseInstructions preheatLine \<noteq> []) = stepLine (trim preheatLine)"
    by blast+
  from s [THEN conjunct2, THEN conjunct2] have "parseInstructions preheatLine \<noteq> []"
    by simp
  with a n show ?thesis
    by blast
qed


end
